theory Spec2Isabelle
  imports Main "HOL-Library.Word"
begin

unbundle bit_operations_syntax

section \<open>Geometry (surface.hpp)\<close>

text \<open>
  Fixed-width integers of the source are words: \<open>int16_t\<close> and \<open>uint16_t\<close> are both
  \<open>16 word\<close>, read with \<open>sint\<close> and \<open>uint\<close> respectively; \<open>uint8_t\<close> is \<open>8 word\<close>.
  The \<open>int32_t\<close> intermediates of the source are \<open>int\<close>: they are sums and differences of a
  few 16-bit values and stay far inside the 32-bit range. A \<open>static_cast\<close> to a 16-bit type
  is \<open>word_of_int\<close>, which wraps modulo \<open>2 ^ 16\<close>.
\<close>

type_synonym i16 = "16 word"
type_synonym u16 = "16 word"
type_synonym u8 = "8 word"

datatype Color = BLACK | WHITE

text \<open>
  The raster ops \<open>XOR\<close>, \<open>AND\<close> and \<open>OR\<close> are \<open>XOR_op\<close>, \<open>AND_op\<close> and \<open>OR_op\<close>: the
  plain names are the bit operations on words.
\<close>

datatype RasterOp = COPY | XOR_op | AND_op | OR_op

record Point =
  point_x :: i16
  point_y :: i16

record Size =
  size_w :: u16
  size_h :: u16

record Rect =
  rect_x :: i16
  rect_y :: i16
  rect_w :: u16
  rect_h :: u16

definition mk_Point :: "i16 \<Rightarrow> i16 \<Rightarrow> Point" where
  "mk_Point px py = \<lparr>point_x = px, point_y = py\<rparr>"

definition mk_Rect :: "i16 \<Rightarrow> i16 \<Rightarrow> u16 \<Rightarrow> u16 \<Rightarrow> Rect" where
  "mk_Rect rx ry rw rh = \<lparr>rect_x = rx, rect_y = ry, rect_w = rw, rect_h = rh\<rparr>"

text \<open>\<open>Rect{}\<close>: every member zero-initialised.\<close>

definition Rect_zero :: Rect where
  "Rect_zero = mk_Rect 0 0 0 0"

definition rect_empty :: "Rect \<Rightarrow> bool" where
  "rect_empty rect \<longleftrightarrow> rect_w rect = 0 \<or> rect_h rect = 0"

definition intersect_rect :: "Rect \<Rightarrow> Rect \<Rightarrow> Rect" where
  "intersect_rect a b =
     (let LEFT = max (sint (rect_x a)) (sint (rect_x b));
          TOP = max (sint (rect_y a)) (sint (rect_y b));
          RIGHT = min (sint (rect_x a) + uint (rect_w a)) (sint (rect_x b) + uint (rect_w b));
          BOTTOM = min (sint (rect_y a) + uint (rect_h a)) (sint (rect_y b) + uint (rect_h b))
      in if RIGHT \<le> LEFT \<or> BOTTOM \<le> TOP then Rect_zero
         else mk_Rect (word_of_int LEFT) (word_of_int TOP)
                (word_of_int (RIGHT - LEFT)) (word_of_int (BOTTOM - TOP)))"

definition union_rect :: "Rect \<Rightarrow> Rect \<Rightarrow> Rect" where
  "union_rect a b =
     (if rect_empty a then b
      else if rect_empty b then a
      else
        let LEFT = min (sint (rect_x a)) (sint (rect_x b));
            TOP = min (sint (rect_y a)) (sint (rect_y b));
            RIGHT = max (sint (rect_x a) + uint (rect_w a)) (sint (rect_x b) + uint (rect_w b));
            BOTTOM = max (sint (rect_y a) + uint (rect_h a)) (sint (rect_y b) + uint (rect_h b))
        in mk_Rect (word_of_int LEFT) (word_of_int TOP)
             (word_of_int (RIGHT - LEFT)) (word_of_int (BOTTOM - TOP)))"

text \<open>
  The region a rect denotes: the half-open set of pixel coordinates
  \<open>[x, x + w) \<times> [y, y + h)\<close>.
\<close>

definition rect_pixels :: "Rect \<Rightarrow> (int \<times> int) set" where
  "rect_pixels r =
     {sint (rect_x r) ..< sint (rect_x r) + uint (rect_w r)} \<times>
     {sint (rect_y r) ..< sint (rect_y r) + uint (rect_h r)}"


section \<open>Font and text style (font.hpp, surface.hpp)\<close>

text \<open>
  Pointers are options: \<open>None\<close> is \<open>nullptr\<close>. The glyph table and a stencil bitmap are
  read-only byte sequences. A pixel buffer is written through, so a \<open>uint8_t*\<close> to one is
  the index of that buffer in an explicit store (a list of byte buffers). A read past the
  end of a byte sequence is undefined in the source; \<open>read_byte\<close> yields 0 there.
\<close>

record Font =
  glyph_width :: u8
  glyph_height :: u8
  first_char :: u8
  last_char :: u8
  ascent :: u8
  descent :: u8
  glyphs :: "u8 list option"

record TextStyle =
  font :: "Font option"
  color :: Color
  raster_op :: RasterOp
  scale_x :: u8
  scale_y :: u8
  letter_spacing :: "8 word"

definition read_byte :: "u8 list \<Rightarrow> nat \<Rightarrow> u8" where
  "read_byte bs i = (if i < length bs then bs ! i else 0)"

section \<open>Surface (surface.hpp, surface.cpp)\<close>

type_synonym store = "u8 list list"

record Surface =
  m_bits :: "nat option"
  m_size :: Size
  m_stride_bytes :: u16
  m_clip :: Rect
  m_dirty :: Rect

text \<open>
  A data member \<open>name_\<close> of a class is the field \<open>m_name\<close> (an Isabelle name cannot end
  in an underscore). A drawing call reads and updates the Surface and writes the store.
\<close>

type_synonym canvas = "Surface \<times> store"

text \<open>The default member initialisers of the class.\<close>

definition Surface_default :: Surface where
  "Surface_default =
     \<lparr>m_bits = None, m_size = \<lparr>size_w = 0, size_h = 0\<rparr>, m_stride_bytes = 0,
      m_clip = Rect_zero, m_dirty = Rect_zero\<rparr>"

definition bounds_rect :: "Size \<Rightarrow> Rect" where
  "bounds_rect sz = mk_Rect 0 0 (size_w sz) (size_h sz)"

definition default_stride :: "Size \<Rightarrow> u16" where
  "default_stride sz =
     (if size_w sz = 0 then 0 else word_of_int ((uint (size_w sz) + 7) div 8))"

definition font_ascent :: "Font \<Rightarrow> int" where
  "font_ascent f = (if ascent f = 0 then uint (glyph_height f) else uint (ascent f))"

definition font_descent :: "Font \<Rightarrow> int" where
  "font_descent f = uint (descent f)"

definition font_line_height :: "Font \<Rightarrow> int" where
  "font_line_height f =
     (let LINE_HEIGHT = font_ascent f + font_descent f
      in if LINE_HEIGHT \<le> 0 then uint (glyph_height f) else LINE_HEIGHT)"

definition Bounds :: "Surface \<Rightarrow> Rect" where
  "Bounds s = bounds_rect (m_size s)"

definition GetSize :: "Surface \<Rightarrow> Size" where
  "GetSize s = m_size s"

definition GetStrideBytes :: "Surface \<Rightarrow> u16" where
  "GetStrideBytes s = m_stride_bytes s"

definition GetDirtyRect :: "Surface \<Rightarrow> Rect" where
  "GetDirtyRect s = m_dirty s"

definition ClearDirtyRect :: "Surface \<Rightarrow> Surface" where
  "ClearDirtyRect s = s\<lparr>m_dirty := Rect_zero\<rparr>"

definition ResetClip :: "Surface \<Rightarrow> Surface" where
  "ResetClip s = s\<lparr>m_clip := Bounds s\<rparr>"

definition SetClip :: "Rect \<Rightarrow> Surface \<Rightarrow> Surface" where
  "SetClip rect s = s\<lparr>m_clip := intersect_rect rect (Bounds s)\<rparr>"

definition GetClip :: "Surface \<Rightarrow> Rect" where
  "GetClip s = m_clip s"

definition Bind :: "nat option \<Rightarrow> Size \<Rightarrow> u16 \<Rightarrow> Surface \<Rightarrow> Surface" where
  "Bind bits sz stride_bytes s =
     ClearDirtyRect (ResetClip
       (s\<lparr>m_bits := bits, m_size := sz,
          m_stride_bytes := (if stride_bytes = 0 then default_stride sz else stride_bytes)\<rparr>))"

definition MarkDirty :: "Rect \<Rightarrow> Surface \<Rightarrow> Surface" where
  "MarkDirty rect s =
     (let clipped = intersect_rect rect (Bounds s)
      in if rect_empty clipped then s
         else if rect_empty (m_dirty s) then s\<lparr>m_dirty := clipped\<rparr>
         else s\<lparr>m_dirty := union_rect (m_dirty s) clipped\<rparr>)"

definition AddDirtyRect :: "Rect \<Rightarrow> Surface \<Rightarrow> Surface" where
  "AddDirtyRect rect s = MarkDirty rect s"

definition InClip :: "Surface \<Rightarrow> Point \<Rightarrow> bool" where
  "InClip s point =
     (if sint (point_x point) < sint (rect_x (m_clip s)) \<or>
         sint (point_y point) < sint (rect_y (m_clip s)) then False
      else if sint (point_x point) \<ge> sint (rect_x (m_clip s)) + uint (rect_w (m_clip s)) \<or>
              sint (point_y point) \<ge> sint (rect_y (m_clip s)) + uint (rect_h (m_clip s))
           then False
      else True)"

text \<open>
  The byte a raster op leaves in place of \<open>dst\<close>, for the mask of one pixel.
\<close>

definition combine :: "RasterOp \<Rightarrow> bool \<Rightarrow> u8 \<Rightarrow> u8 \<Rightarrow> u8" where
  "combine rop SRC_IS_SET MASK dst =
     (case rop of
        COPY \<Rightarrow> (if SRC_IS_SET then dst OR MASK else dst AND NOT MASK)
      | XOR_op \<Rightarrow> (if SRC_IS_SET then dst XOR MASK else dst)
      | AND_op \<Rightarrow> (if \<not> SRC_IS_SET then dst AND NOT MASK else dst)
      | OR_op \<Rightarrow> (if SRC_IS_SET then dst OR MASK else dst))"

text \<open>
  \<open>PlotUnchecked\<close> is only reached with a point inside \<open>m_clip\<close>, where both coordinates
  are non-negative; the \<open>size_t\<close> conversions of the source are \<open>nat\<close> there. A write
  outside the buffer (undefined in the source) leaves the store as it is.
\<close>

definition PlotUnchecked :: "i16 \<Rightarrow> i16 \<Rightarrow> Color \<Rightarrow> RasterOp \<Rightarrow> Surface \<Rightarrow> store \<Rightarrow> store" where
  "PlotUnchecked px py col rop s st =
     (if m_stride_bytes s = 0 then st
      else case m_bits s of
        None \<Rightarrow> st
      | Some b \<Rightarrow>
          let BYTE_INDEX = nat (sint py) * unat (m_stride_bytes s) + nat (sint px div 8);
              MASK = drop_bit (unat (px AND 7)) (0x80 :: u8);
              SRC_IS_SET = (col = WHITE)
          in if b < length st \<and> BYTE_INDEX < length (st ! b)
             then st[b := (st ! b)[BYTE_INDEX := combine rop SRC_IS_SET MASK (st ! b ! BYTE_INDEX)] ]
             else st)"

definition Clear :: "Color \<Rightarrow> canvas \<Rightarrow> canvas" where
  "Clear col c =
     (let s = fst c; st = snd c
      in case m_bits s of
        None \<Rightarrow> c
      | Some b \<Rightarrow>
          if size_w (m_size s) = 0 \<or> size_h (m_size s) = 0 \<or> m_stride_bytes s = 0 then c
          else
            let BYTES = unat (m_stride_bytes s) * unat (size_h (m_size s));
                FILL = (if col = WHITE then 0xFF else 0x00 :: u8)
            in (MarkDirty (Bounds s) s,
                if b < length st
                then st[b := replicate (min BYTES (length (st ! b))) FILL @ drop BYTES (st ! b)]
                else st))"

definition DrawPixel :: "Point \<Rightarrow> Color \<Rightarrow> RasterOp \<Rightarrow> canvas \<Rightarrow> canvas" where
  "DrawPixel point col rop c =
     (let s = fst c; st = snd c
      in if m_bits s = None \<or> \<not> InClip s point then c
         else (MarkDirty (mk_Rect (point_x point) (point_y point) 1 1) s,
               PlotUnchecked (point_x point) (point_y point) col rop s st))"

definition DrawHLine :: "Point \<Rightarrow> i16 \<Rightarrow> Color \<Rightarrow> RasterOp \<Rightarrow> canvas \<Rightarrow> canvas" where
  "DrawHLine point len col rop c =
     (let s = fst c; st = snd c
      in if m_bits s = None \<or> len = 0 then c
         else
           let x0 = sint (point_x point);
               span0 = sint len;
               x = (if span0 < 0 then x0 + span0 else x0);
               span = (if span0 < 0 then - span0 else span0)
           in if span \<le> 0 then c
              else
                let rect = intersect_rect
                             (mk_Rect (word_of_int x) (point_y point) (word_of_int span) 1)
                             (m_clip s)
                in if rect_empty rect then c
                   else (MarkDirty rect s,
                         fold (\<lambda>cx. PlotUnchecked (word_of_int cx) (rect_y rect) col rop s)
                           [sint (rect_x rect) .. sint (rect_x rect) + uint (rect_w rect) - 1]
                           st))"

definition DrawVLine :: "Point \<Rightarrow> i16 \<Rightarrow> Color \<Rightarrow> RasterOp \<Rightarrow> canvas \<Rightarrow> canvas" where
  "DrawVLine point len col rop c =
     (let s = fst c; st = snd c
      in if m_bits s = None \<or> len = 0 then c
         else
           let y0 = sint (point_y point);
               span0 = sint len;
               y = (if span0 < 0 then y0 + span0 else y0);
               span = (if span0 < 0 then - span0 else span0)
           in if span \<le> 0 then c
              else
                let rect = intersect_rect
                             (mk_Rect (point_x point) (word_of_int y) 1 (word_of_int span))
                             (m_clip s)
                in if rect_empty rect then c
                   else (MarkDirty rect s,
                         fold (\<lambda>cy. PlotUnchecked (rect_x rect) (word_of_int cy) col rop s)
                           [sint (rect_y rect) .. sint (rect_y rect) + uint (rect_h rect) - 1]
                           st))"


text \<open>
  The \<open>while (true)\<close> loop of \<open>DrawLine\<close>. Nothing in its text bounds the number of
  rounds, so the loop is a partial function: \<open>None\<close> is a run that never leaves the loop.
\<close>

partial_function (option) DrawLine_loop ::
  "int \<Rightarrow> int \<Rightarrow> int \<Rightarrow> int \<Rightarrow> int \<Rightarrow> int \<Rightarrow> Color \<Rightarrow> RasterOp \<Rightarrow>
   int \<Rightarrow> int \<Rightarrow> int \<Rightarrow> canvas \<Rightarrow> canvas option" where
  "DrawLine_loop X1 Y1 DX SX DY SY col rop x0 y0 err c =
     (let c' = DrawPixel (mk_Point (word_of_int x0) (word_of_int y0)) col rop c
      in if x0 = X1 \<and> y0 = Y1 then Some c'
         else
           let E2 = 2 * err;
               err1 = (if E2 \<ge> DY then err + DY else err);
               x0' = (if E2 \<ge> DY then x0 + SX else x0);
               err2 = (if E2 \<le> DX then err1 + DX else err1);
               y0' = (if E2 \<le> DX then y0 + SY else y0)
           in DrawLine_loop X1 Y1 DX SX DY SY col rop x0' y0' err2 c')"

declare DrawLine_loop.simps [code]

definition DrawLine :: "Point \<Rightarrow> Point \<Rightarrow> Color \<Rightarrow> RasterOp \<Rightarrow> canvas \<Rightarrow> canvas option" where
  "DrawLine p0 p1 col rop c =
     (let x0 = sint (point_x p0);
          y0 = sint (point_y p0);
          X1 = sint (point_x p1);
          Y1 = sint (point_y p1);
          DX = \<bar>X1 - x0\<bar>;
          SX = (if x0 < X1 then 1 else - 1);
          DY = - \<bar>Y1 - y0\<bar>;
          SY = (if y0 < Y1 then 1 else - 1);
          err = DX + DY
      in DrawLine_loop X1 Y1 DX SX DY SY col rop x0 y0 err c)"

definition DrawRect :: "Rect \<Rightarrow> Color \<Rightarrow> RasterOp \<Rightarrow> canvas \<Rightarrow> canvas" where
  "DrawRect rect col rop c =
     (if rect_empty rect then c
      else
        let c1 = DrawHLine (mk_Point (rect_x rect) (rect_y rect))
                   (word_of_int (uint (rect_w rect))) col rop c;
            c2 = (if uint (rect_h rect) > 1
                  then DrawHLine
                         (mk_Point (rect_x rect)
                            (word_of_int (sint (rect_y rect) + uint (rect_h rect) - 1)))
                         (word_of_int (uint (rect_w rect))) col rop c1
                  else c1)
        in if uint (rect_h rect) > 2
           then
             let c3 = DrawVLine
                        (mk_Point (rect_x rect) (word_of_int (sint (rect_y rect) + 1)))
                        (word_of_int (uint (rect_h rect) - 2)) col rop c2
             in if uint (rect_w rect) > 1
                then DrawVLine
                       (mk_Point (word_of_int (sint (rect_x rect) + uint (rect_w rect) - 1))
                          (word_of_int (sint (rect_y rect) + 1)))
                       (word_of_int (uint (rect_h rect) - 2)) col rop c3
                else c3
           else c2)"

definition FillRect :: "Rect \<Rightarrow> Color \<Rightarrow> RasterOp \<Rightarrow> canvas \<Rightarrow> canvas" where
  "FillRect rect0 col rop c =
     (let rect = intersect_rect rect0 (m_clip (fst c))
      in if rect_empty rect then c
         else fold (\<lambda>y. DrawHLine (mk_Point (rect_x rect) (word_of_int y))
                           (word_of_int (uint (rect_w rect))) col rop)
                [sint (rect_y rect) .. sint (rect_y rect) + uint (rect_h rect) - 1] c)"

text \<open>One round of the \<open>DrawCircle\<close> loop plots the eight symmetric points.\<close>

definition DrawCircle_points :: "Point \<Rightarrow> int \<Rightarrow> int \<Rightarrow> Color \<Rightarrow> RasterOp \<Rightarrow> canvas \<Rightarrow> canvas" where
  "DrawCircle_points center x y col rop c =
     (let cx = sint (point_x center); cy = sint (point_y center);
          c1 = DrawPixel (mk_Point (word_of_int (cx + x)) (word_of_int (cy + y))) col rop c;
          c2 = DrawPixel (mk_Point (word_of_int (cx + y)) (word_of_int (cy + x))) col rop c1;
          c3 = DrawPixel (mk_Point (word_of_int (cx - y)) (word_of_int (cy + x))) col rop c2;
          c4 = DrawPixel (mk_Point (word_of_int (cx - x)) (word_of_int (cy + y))) col rop c3;
          c5 = DrawPixel (mk_Point (word_of_int (cx - x)) (word_of_int (cy - y))) col rop c4;
          c6 = DrawPixel (mk_Point (word_of_int (cx - y)) (word_of_int (cy - x))) col rop c5;
          c7 = DrawPixel (mk_Point (word_of_int (cx + y)) (word_of_int (cy - x))) col rop c6
      in DrawPixel (mk_Point (word_of_int (cx + x)) (word_of_int (cy - y))) col rop c7)"

function DrawCircle_loop ::
  "Point \<Rightarrow> Color \<Rightarrow> RasterOp \<Rightarrow> int \<Rightarrow> int \<Rightarrow> int \<Rightarrow> canvas \<Rightarrow> canvas" where
  "DrawCircle_loop center col rop x y err c =
     (if x \<ge> y
      then
        let c' = DrawCircle_points center x y col rop c;
            y' = y + 1
        in if err < 0
           then DrawCircle_loop center col rop x y' (err + (2 * y' + 1)) c'
           else DrawCircle_loop center col rop (x - 1) y' (err + 2 * (y' - (x - 1) + 1)) c'
      else c)"
  by pat_completeness auto
termination
  by (relation "measure (\<lambda>(center, col, rop, x, y, err, c). nat (x - y + 1))") auto

declare DrawCircle_loop.simps [simp del]

definition DrawCircle :: "Point \<Rightarrow> u8 \<Rightarrow> Color \<Rightarrow> RasterOp \<Rightarrow> canvas \<Rightarrow> canvas" where
  "DrawCircle center radius col rop c =
     DrawCircle_loop center col rop (uint radius) 0 (1 - uint radius) c"

definition DrawBitmap ::
  "Point \<Rightarrow> u8 list option \<Rightarrow> Size \<Rightarrow> Color \<Rightarrow> RasterOp \<Rightarrow> canvas \<Rightarrow> canvas" where
  "DrawBitmap point bits sz foreground rop c =
     (case bits of
        None \<Rightarrow> c
      | Some bs \<Rightarrow>
          if size_w sz = 0 \<or> size_h sz = 0 then c
          else
            let SRC_STRIDE = default_stride sz
            in fold (\<lambda>y. fold (\<lambda>x c'.
                      let BYTE = read_byte bs (y * unat SRC_STRIDE + x div 8);
                          MASK = drop_bit (x mod 8) (0x80 :: u8)
                      in if BYTE AND MASK \<noteq> 0
                         then DrawPixel
                                (mk_Point (word_of_int (sint (point_x point) + int x))
                                   (word_of_int (sint (point_y point) + int y)))
                                foreground rop c'
                         else c')
                    [0 ..< unat (size_w sz)])
                 [0 ..< unat (size_h sz)] c)"


text \<open>
  The constants \<open>DrawText\<close> computes before its loop. A scale of 0 counts as 1.
\<close>

definition text_SCALE_X :: "TextStyle \<Rightarrow> u8" where
  "text_SCALE_X style = (if scale_x style = 0 then 1 else scale_x style)"

definition text_SCALE_Y :: "TextStyle \<Rightarrow> u8" where
  "text_SCALE_Y style = (if scale_y style = 0 then 1 else scale_y style)"

definition text_GLYPH_STRIDE :: "Font \<Rightarrow> u16" where
  "text_GLYPH_STRIDE f =
     word_of_int (((uint (glyph_width f) + 7) div 8) * uint (glyph_height f))"

definition text_ADVANCE :: "Font \<Rightarrow> TextStyle \<Rightarrow> int" where
  "text_ADVANCE f style =
     uint (glyph_width f) * uint (text_SCALE_X style) + sint (letter_spacing style)"

text \<open>
  The nested iteration over the glyph rows and columns in \<open>DrawText\<close>: every set bit
  of the glyph of \<open>CH\<close> becomes a filled rectangle of \<open>SCALE_X\<close> by \<open>SCALE_Y\<close> pixels.
\<close>

definition DrawText_glyph ::
  "Font \<Rightarrow> TextStyle \<Rightarrow> u8 list \<Rightarrow> u8 \<Rightarrow> int \<Rightarrow> int \<Rightarrow> canvas \<Rightarrow> canvas" where
  "DrawText_glyph f style tbl CH cursor_x TOP_Y c =
     (let SCALE_X = text_SCALE_X style;
          SCALE_Y = text_SCALE_Y style;
          GLYPH_INDEX = unat (CH - first_char f);
          glyph = GLYPH_INDEX * unat (text_GLYPH_STRIDE f)
      in fold (\<lambda>gy. fold (\<lambda>gx c'.
                let BYTE = read_byte tbl
                             (glyph + gy * ((unat (glyph_width f) + 7) div 8) + gx div 8);
                    MASK = drop_bit (gx mod 8) (0x80 :: u8)
                in if BYTE AND MASK \<noteq> 0
                   then FillRect
                          (mk_Rect (word_of_int (cursor_x + int gx * uint SCALE_X))
                             (word_of_int (TOP_Y + int gy * uint SCALE_Y))
                             (ucast SCALE_X) (ucast SCALE_Y))
                          (color style) (raster_op style) c'
                   else c')
              [0 ..< unat (glyph_width f)])
           [0 ..< unat (glyph_height f)] c)"

text \<open>
  The loop over the characters of the text. The list holds the characters of the C string;
  the loop ends at the end of the list or at a NUL, whichever comes first. The cursor
  \<open>cursor_x\<close>, \<open>baseline_y\<close> is a pair of integers: each character moves it by less than
  \<open>2 ^ 16\<close>, so the \<open>int32_t\<close> of the source holds it for every text of fewer than
  32000 characters.
\<close>

fun DrawText_loop ::
  "Font \<Rightarrow> TextStyle \<Rightarrow> u8 list \<Rightarrow> Point \<Rightarrow> string \<Rightarrow> int \<Rightarrow> int \<Rightarrow> canvas \<Rightarrow> canvas" where
  "DrawText_loop f style tbl baseline_left [] cursor_x baseline_y c = c"
| "DrawText_loop f style tbl baseline_left (ch # p) cursor_x baseline_y c =
     (if ch = CHR 0x00 then c
      else if ch = CHR 0x0A
      then DrawText_loop f style tbl baseline_left p
             (sint (point_x baseline_left))
             (baseline_y + (font_line_height f * uint (text_SCALE_Y style) + 1)) c
      else
        let TOP_Y = baseline_y - font_ascent f * uint (text_SCALE_Y style);
            CH = (of_char ch :: u8);
            c' = (if CH \<ge> first_char f \<and> CH \<le> last_char f
                  then DrawText_glyph f style tbl CH cursor_x TOP_Y c
                  else c)
        in DrawText_loop f style tbl baseline_left p
             (cursor_x + text_ADVANCE f style) baseline_y c')"

definition DrawText :: "Point \<Rightarrow> string option \<Rightarrow> TextStyle \<Rightarrow> canvas \<Rightarrow> canvas" where
  "DrawText baseline_left text style c =
     (case text of
        None \<Rightarrow> c
      | Some p \<Rightarrow>
          (case font style of
             None \<Rightarrow> c
           | Some f \<Rightarrow>
               (case glyphs f of
                  None \<Rightarrow> c
                | Some tbl \<Rightarrow>
                    if glyph_width f = 0 \<or> glyph_height f = 0 \<or> last_char f < first_char f
                    then c
                    else DrawText_loop f style tbl baseline_left p
                           (sint (point_x baseline_left)) (sint (point_y baseline_left)) c)))"

text \<open>The overloads that take a raster op override the one of the style.\<close>

definition DrawText_op ::
  "Point \<Rightarrow> string option \<Rightarrow> TextStyle \<Rightarrow> RasterOp \<Rightarrow> canvas \<Rightarrow> canvas" where
  "DrawText_op baseline_left text style rop c =
     DrawText baseline_left text (style\<lparr>raster_op := rop\<rparr>) c"

definition DrawTextTopLeft :: "Point \<Rightarrow> string option \<Rightarrow> TextStyle \<Rightarrow> canvas \<Rightarrow> canvas" where
  "DrawTextTopLeft top_left text style c =
     (case font style of
        None \<Rightarrow> DrawText top_left text style c
      | Some f \<Rightarrow>
          let SCALE_Y = text_SCALE_Y style;
              ASCENT = font_ascent f;
              BASELINE_LEFT = mk_Point (point_x top_left)
                                (word_of_int (sint (point_y top_left) + ASCENT * uint SCALE_Y))
          in DrawText BASELINE_LEFT text style c)"

definition DrawTextTopLeft_op ::
  "Point \<Rightarrow> string option \<Rightarrow> TextStyle \<Rightarrow> RasterOp \<Rightarrow> canvas \<Rightarrow> canvas" where
  "DrawTextTopLeft_op top_left text style rop c =
     DrawTextTopLeft top_left text (style\<lparr>raster_op := rop\<rparr>) c"

subsection \<open>Sequences of Surface calls\<close>

text \<open>
  One constructor per public member function of \<open>Surface\<close> that changes the Surface or
  the store. \<open>run_ops\<close> performs a sequence of calls in order; its result is \<open>None\<close> when a
  call does not return.
\<close>

datatype surface_op =
    Op_Bind "nat option" Size u16
  | Op_Clear Color
  | Op_SetClip Rect
  | Op_ResetClip
  | Op_DrawPixel Point Color RasterOp
  | Op_DrawHLine Point i16 Color RasterOp
  | Op_DrawVLine Point i16 Color RasterOp
  | Op_DrawLine Point Point Color RasterOp
  | Op_DrawRect Rect Color RasterOp
  | Op_FillRect Rect Color RasterOp
  | Op_DrawCircle Point u8 Color RasterOp
  | Op_DrawBitmap Point "u8 list option" Size Color RasterOp
  | Op_DrawText Point "string option" TextStyle
  | Op_DrawText_op Point "string option" TextStyle RasterOp
  | Op_DrawTextTopLeft Point "string option" TextStyle
  | Op_DrawTextTopLeft_op Point "string option" TextStyle RasterOp
  | Op_AddDirtyRect Rect
  | Op_ClearDirtyRect

fun run_op :: "surface_op \<Rightarrow> canvas \<Rightarrow> canvas option" where
  "run_op (Op_Bind bits sz stride_bytes) c = Some (Bind bits sz stride_bytes (fst c), snd c)"
| "run_op (Op_Clear col) c = Some (Clear col c)"
| "run_op (Op_SetClip rect) c = Some (SetClip rect (fst c), snd c)"
| "run_op Op_ResetClip c = Some (ResetClip (fst c), snd c)"
| "run_op (Op_DrawPixel point col rop) c = Some (DrawPixel point col rop c)"
| "run_op (Op_DrawHLine point len col rop) c = Some (DrawHLine point len col rop c)"
| "run_op (Op_DrawVLine point len col rop) c = Some (DrawVLine point len col rop c)"
| "run_op (Op_DrawLine p0 p1 col rop) c = DrawLine p0 p1 col rop c"
| "run_op (Op_DrawRect rect col rop) c = Some (DrawRect rect col rop c)"
| "run_op (Op_FillRect rect col rop) c = Some (FillRect rect col rop c)"
| "run_op (Op_DrawCircle center radius col rop) c = Some (DrawCircle center radius col rop c)"
| "run_op (Op_DrawBitmap point bits sz foreground rop) c =
     Some (DrawBitmap point bits sz foreground rop c)"
| "run_op (Op_DrawText point text style) c = Some (DrawText point text style c)"
| "run_op (Op_DrawText_op point text style rop) c = Some (DrawText_op point text style rop c)"
| "run_op (Op_DrawTextTopLeft point text style) c = Some (DrawTextTopLeft point text style c)"
| "run_op (Op_DrawTextTopLeft_op point text style rop) c =
     Some (DrawTextTopLeft_op point text style rop c)"
| "run_op (Op_AddDirtyRect rect) c = Some (AddDirtyRect rect (fst c), snd c)"
| "run_op Op_ClearDirtyRect c = Some (ClearDirtyRect (fst c), snd c)"

fun run_ops :: "surface_op list \<Rightarrow> canvas \<Rightarrow> canvas option" where
  "run_ops [] c = Some c"
| "run_ops (a # as) c = (case run_op a c of None \<Rightarrow> None | Some c' \<Rightarrow> run_ops as c')"


section \<open>Presentation types (present_types.hpp)\<close>

datatype Rotation = R0 | R90 | R180 | R270

text \<open>
  The enumerators \<open>BufferMode::FULL\<close> and \<open>BufferMode::PAGE\<close> carry the name of their
  enumeration, since \<open>PresentMode\<close> has a \<open>FULL\<close> too.
\<close>

datatype BufferMode = BufferMode_FULL | BufferMode_PAGE

datatype PresentMode = AUTO | FULL | DIRTY

record DisplayConfig =
  width :: u16
  height :: u16
  rotation :: Rotation
  buffer_mode :: BufferMode
  page_rows :: u8
  enable_dirty_tracking :: bool

text \<open>
  \<open>FrameView::bits\<close> points at one of the two framebuffers of the Present: \<open>fv_bits\<close> is
  the index of that framebuffer.
\<close>

record FrameView =
  fv_bits :: nat
  fv_width :: u16
  fv_height :: u16
  fv_stride_bytes :: u16
  fv_dirty :: Rect

record BackendCaps =
  partial_update :: bool
  power_save :: bool
  contrast :: bool
  async_present :: bool

text \<open>
  Modelled from the spec: \<open>LibXR::ErrorCode\<close> is declared in \<open>libxr_def.hpp\<close>, which is
  not among the sources. Its values are the status codes the specification lists.
\<close>

datatype ErrorCode = OK | INIT_ERR | ARG_ERR | SIZE_ERR | STATE_ERR | BUSY | NOT_SUPPORT

section \<open>The backend\<close>

text \<open>
  \<open>Backend\<close> is a template parameter of \<open>Present\<close>: any type with the five member
  functions below. A backend is a state of type \<open>'b\<close> together with one function per
  member; a member that may change the backend returns its new state. The member
  \<open>Present\<close> is given the framebuffers too, since it reads the frame through
  \<open>FrameView::bits\<close>.
\<close>

record 'b Backend =
  be_Init :: "'b \<Rightarrow> DisplayConfig \<Rightarrow> ErrorCode \<times> 'b"
  be_Caps :: "'b \<Rightarrow> BackendCaps"
  be_Present :: "'b \<Rightarrow> store \<Rightarrow> FrameView \<Rightarrow> PresentMode \<Rightarrow> ErrorCode \<times> 'b"
  be_SetPowerSave :: "'b \<Rightarrow> bool \<Rightarrow> ErrorCode \<times> 'b"
  be_SetContrast :: "'b \<Rightarrow> u8 \<Rightarrow> ErrorCode \<times> 'b"

text \<open>
  What crosses the backend interface is recorded: one entry per call of a backend member,
  with the arguments handed over and the status returned, in the order of the calls.
\<close>

datatype backend_call =
    Call_Init DisplayConfig ErrorCode
  | Call_Present FrameView PresentMode ErrorCode
  | Call_SetPowerSave bool ErrorCode
  | Call_SetContrast u8 ErrorCode

section \<open>Present (present.hpp)\<close>

text \<open>
  The state of a \<open>Present<Backend, kFramebufferBytes>\<close>. \<open>backend_log\<close> is not a member
  of the class: it is the record of the backend calls made so far. The atomic flag
  \<open>transfer_in_progress_\<close> is a plain boolean: each member function is one step, and the
  completion signal \<open>OnTransferDone\<close> is a step between two of them.
\<close>

record 'b Present =
  m_cfg :: DisplayConfig
  m_caps :: BackendCaps
  m_backend :: 'b
  m_framebuffers :: store
  m_surface :: Surface
  m_draw_buffer_index :: u8
  m_transfer_in_progress :: bool
  m_initialized :: bool
  m_in_frame :: bool
  backend_log :: "backend_call list"

definition FullRect :: "DisplayConfig \<Rightarrow> Rect" where
  "FullRect cfg = mk_Rect 0 0 (width cfg) (height cfg)"

definition ClipToFrame :: "Rect \<Rightarrow> DisplayConfig \<Rightarrow> Rect" where
  "ClipToFrame rect cfg = intersect_rect rect (FullRect cfg)"

definition StrideBytes :: "DisplayConfig \<Rightarrow> u16" where
  "StrideBytes cfg = word_of_int ((uint (width cfg) + 7) div 8)"

definition FramebufferBytes :: "DisplayConfig \<Rightarrow> nat" where
  "FramebufferBytes cfg = unat (StrideBytes cfg) * unat (height cfg)"

definition BindDrawSurface :: "'b Present \<Rightarrow> 'b Present" where
  "BindDrawSurface s =
     s\<lparr>m_surface :=
          Bind (Some (unat (m_draw_buffer_index s)))
            \<lparr>size_w = width (m_cfg s), size_h = height (m_cfg s)\<rparr>
            (StrideBytes (m_cfg s)) (m_surface s)\<rparr>"

definition ClearAllBuffers :: "'b Present \<Rightarrow> 'b Present" where
  "ClearAllBuffers s =
     s\<lparr>m_framebuffers := map (\<lambda>buffer. replicate (length buffer) 0) (m_framebuffers s),
        m_surface := ClearDirtyRect (m_surface s)\<rparr>"

text \<open>
  The members as the class initialises them before the constructor body runs: both
  framebuffers hold \<open>kFramebufferBytes\<close> zero bytes.
\<close>

definition Present_members :: "nat \<Rightarrow> 'b \<Rightarrow> DisplayConfig \<Rightarrow> 'b Present" where
  "Present_members kFramebufferBytes backend config =
     \<lparr>m_cfg = config,
      m_caps = \<lparr>partial_update = False, power_save = False, contrast = False,
                async_present = False\<rparr>,
      m_backend = backend,
      m_framebuffers = [replicate kFramebufferBytes 0, replicate kFramebufferBytes 0],
      m_surface = Surface_default,
      m_draw_buffer_index = 0,
      m_transfer_in_progress = False,
      m_initialized = False,
      m_in_frame = False,
      backend_log = []\<rparr>"

text \<open>
  The constructor. Each failing check leaves \<open>initialized_\<close> false (the \<open>ASSERT\<close> before it
  is a debug aid of \<open>libxr_def.hpp\<close> and not part of the state).
\<close>

definition Present_ctor :: "'b Backend \<Rightarrow> nat \<Rightarrow> 'b \<Rightarrow> DisplayConfig \<Rightarrow> 'b Present" where
  "Present_ctor B kFramebufferBytes backend config =
     (let s = Present_members kFramebufferBytes backend config
      in if width config = 0 \<or> height config = 0 then s\<lparr>m_initialized := False\<rparr>
         else if buffer_mode config = BufferMode_PAGE \<and> page_rows config = 0
         then s\<lparr>m_initialized := False\<rparr>
         else if FramebufferBytes config > kFramebufferBytes then s\<lparr>m_initialized := False\<rparr>
         else
           let r = be_Init B backend config;
               INIT_STATUS = fst r;
               s1 = s\<lparr>m_backend := snd r, backend_log := [Call_Init config INIT_STATUS]\<rparr>
           in if INIT_STATUS \<noteq> OK then s1\<lparr>m_initialized := False\<rparr>
              else
                let s2 = s1\<lparr>m_caps := be_Caps B (m_backend s1), m_draw_buffer_index := 0,
                            m_transfer_in_progress := False\<rparr>;
                    s3 = ClearAllBuffers (BindDrawSurface s2);
                    s4 = s3\<lparr>m_surface := AddDirtyRect (FullRect (m_cfg s3)) (m_surface s3)\<rparr>
                in s4\<lparr>m_initialized := True, m_in_frame := False\<rparr>)"

definition IsTransferInProgress :: "'b Present \<Rightarrow> bool" where
  "IsTransferInProgress s = m_transfer_in_progress s"

text \<open>
  The compare-and-exchange of \<open>OnTransferDone\<close> succeeds exactly when the flag is set, and
  clears it.
\<close>

definition OnTransferDone :: "'b Present \<Rightarrow> ErrorCode \<times> 'b Present" where
  "OnTransferDone s =
     (if \<not> m_initialized s then (INIT_ERR, s)
      else if \<not> async_present (m_caps s) then (NOT_SUPPORT, s)
      else if \<not> m_transfer_in_progress s then (STATE_ERR, s)
      else (OK, s\<lparr>m_transfer_in_progress := False\<rparr>))"

definition BeginFrame :: "'b Present \<Rightarrow> ErrorCode \<times> 'b Present" where
  "BeginFrame s =
     (if \<not> m_initialized s then (INIT_ERR, s)
      else if m_in_frame s then (BUSY, s)
      else (OK, s\<lparr>m_in_frame := True\<rparr>))"

definition EndFrame :: "'b Present \<Rightarrow> ErrorCode \<times> 'b Present" where
  "EndFrame s =
     (if \<not> m_initialized s then (INIT_ERR, s)
      else if \<not> m_in_frame s then (ARG_ERR, s)
      else (OK, s\<lparr>m_in_frame := False\<rparr>))"

text \<open>
  \<open>std::copy_n\<close> of \<open>n\<close> bytes at the same offset of two buffers, byte by byte. The
  constructor has checked that every row of the frame lies inside both buffers.
\<close>

definition copy_n_at :: "u8 list \<Rightarrow> nat \<Rightarrow> nat \<Rightarrow> u8 list \<Rightarrow> u8 list" where
  "copy_n_at src off n dst = fold (\<lambda>i d. d[i := read_byte src i]) [off ..< off + n] dst"

definition CopyRegionBetweenBuffers :: "nat \<Rightarrow> nat \<Rightarrow> Rect \<Rightarrow> 'b Present \<Rightarrow> 'b Present" where
  "CopyRegionBetweenBuffers src_index dst_index region s =
     (let CLIPPED = ClipToFrame region (m_cfg s)
      in if rect_empty CLIPPED then s
         else
           let STRIDE = StrideBytes (m_cfg s);
               X_BYTE_START = sint (rect_x CLIPPED) div 8;
               X_BYTE_END = (sint (rect_x CLIPPED) + uint (rect_w CLIPPED) + 7) div 8;
               COPY_BYTES = nat (X_BYTE_END - X_BYTE_START)
           in if COPY_BYTES = 0 then s
              else
                let Y_START = sint (rect_y CLIPPED);
                    Y_END = sint (rect_y CLIPPED) + uint (rect_h CLIPPED)
                in s\<lparr>m_framebuffers :=
                       fold (\<lambda>y fbs.
                               let ROW_OFFSET = nat y * unat STRIDE + nat X_BYTE_START
                               in fbs[dst_index :=
                                        copy_n_at (fbs ! src_index) ROW_OFFSET COPY_BYTES
                                          (fbs ! dst_index)])
                         [Y_START .. Y_END - 1] (m_framebuffers s)\<rparr>)"

definition SwapToNextDrawBuffer :: "Rect \<Rightarrow> 'b Present \<Rightarrow> 'b Present" where
  "SwapToNextDrawBuffer sync_region s =
     (let SUBMITTED = m_draw_buffer_index s;
          NEXT = SUBMITTED XOR 1;
          s1 = CopyRegionBetweenBuffers (unat SUBMITTED) (unat NEXT) sync_region s;
          s2 = BindDrawSurface (s1\<lparr>m_draw_buffer_index := NEXT\<rparr>)
      in s2\<lparr>m_surface := ClearDirtyRect (m_surface s2)\<rparr>)"

text \<open>The \<open>FrameView\<close> that \<open>SubmitFrame\<close> builds for a region.\<close>

definition frame_view :: "'b Present \<Rightarrow> Rect \<Rightarrow> FrameView" where
  "frame_view s region =
     \<lparr>fv_bits = unat (m_draw_buffer_index s),
      fv_width = width (m_cfg s),
      fv_height = height (m_cfg s),
      fv_stride_bytes = StrideBytes (m_cfg s),
      fv_dirty = region\<rparr>"

text \<open>One call of \<open>backend_.Present(frame, mode)\<close>: the status, and the state after it.\<close>

definition call_Present ::
  "'b Backend \<Rightarrow> FrameView \<Rightarrow> PresentMode \<Rightarrow> 'b Present \<Rightarrow> ErrorCode \<times> 'b Present" where
  "call_Present B frame mode s =
     (let r = be_Present B (m_backend s) (m_framebuffers s) frame mode
      in (fst r, s\<lparr>m_backend := snd r,
                   backend_log := backend_log s @ [Call_Present frame mode (fst r)]\<rparr>))"

definition SubmitFrame ::
  "'b Backend \<Rightarrow> Rect \<Rightarrow> PresentMode \<Rightarrow> 'b Present \<Rightarrow> ErrorCode \<times> 'b Present" where
  "SubmitFrame B region mode s =
     (let frame = frame_view s region
      in if \<not> async_present (m_caps s)
         then
           let r = call_Present B frame mode s; STATUS = fst r; s1 = snd r
           in if STATUS = OK then (STATUS, s1\<lparr>m_surface := ClearDirtyRect (m_surface s1)\<rparr>)
              else (STATUS, s1)
         else if m_transfer_in_progress s then (BUSY, s)
         else
           let r = call_Present B frame mode s; STATUS = fst r; s1 = snd r
           in if STATUS \<noteq> OK then (STATUS, s1)
              else (OK, SwapToNextDrawBuffer region (s1\<lparr>m_transfer_in_progress := True\<rparr>)))"

definition PresentFrame ::
  "'b Backend \<Rightarrow> PresentMode \<Rightarrow> 'b Present \<Rightarrow> ErrorCode \<times> 'b Present" where
  "PresentFrame B mode s =
     (if \<not> m_initialized s then (INIT_ERR, s)
      else
        let resolved = (if \<not> partial_update (m_caps s) \<and> (mode = AUTO \<or> mode = DIRTY)
                        then FULL else mode)
        in if resolved = FULL \<or> (resolved = AUTO \<and> \<not> enable_dirty_tracking (m_cfg s))
           then SubmitFrame B (FullRect (m_cfg s)) FULL s
           else
             let region = ClipToFrame (GetDirtyRect (m_surface s)) (m_cfg s)
             in if rect_empty region then (OK, s)
                else SubmitFrame B region DIRTY s)"

text \<open>The overload \<open>PresentFrame(Rect dirty_rect)\<close>.\<close>

definition PresentFrame_rect ::
  "'b Backend \<Rightarrow> Rect \<Rightarrow> 'b Present \<Rightarrow> ErrorCode \<times> 'b Present" where
  "PresentFrame_rect B dirty_rect s =
     (if \<not> m_initialized s then (INIT_ERR, s)
      else
        let clipped_dirty = ClipToFrame dirty_rect (m_cfg s)
        in if rect_empty clipped_dirty then (ARG_ERR, s)
           else
             let mode = (if partial_update (m_caps s) then DIRTY else FULL)
             in if mode = FULL then SubmitFrame B (FullRect (m_cfg s)) mode s
                else SubmitFrame B clipped_dirty mode s)"

definition SetRotation :: "Rotation \<Rightarrow> 'b Present \<Rightarrow> ErrorCode \<times> 'b Present" where
  "SetRotation rot s =
     (if \<not> m_initialized s then (INIT_ERR, s)
      else
        let s1 = s\<lparr>m_cfg := (m_cfg s)\<lparr>rotation := rot\<rparr>\<rparr>
        in (OK, s1\<lparr>m_surface := AddDirtyRect (FullRect (m_cfg s1)) (m_surface s1)\<rparr>))"

definition SetPowerSave :: "'b Backend \<Rightarrow> bool \<Rightarrow> 'b Present \<Rightarrow> ErrorCode \<times> 'b Present" where
  "SetPowerSave B enable s =
     (if \<not> m_initialized s then (INIT_ERR, s)
      else if \<not> power_save (m_caps s) then (NOT_SUPPORT, s)
      else
        let r = be_SetPowerSave B (m_backend s) enable
        in (fst r, s\<lparr>m_backend := snd r,
                     backend_log := backend_log s @ [Call_SetPowerSave enable (fst r)]\<rparr>))"

definition SetContrast :: "'b Backend \<Rightarrow> u8 \<Rightarrow> 'b Present \<Rightarrow> ErrorCode \<times> 'b Present" where
  "SetContrast B v s =
     (if \<not> m_initialized s then (INIT_ERR, s)
      else if \<not> contrast (m_caps s) then (NOT_SUPPORT, s)
      else
        let r = be_SetContrast B (m_backend s) v
        in (fst r, s\<lparr>m_backend := snd r,
                     backend_log := backend_log s @ [Call_SetContrast v (fst r)]\<rparr>))"


section \<open>Notions used to state the properties\<close>

text \<open>
  \<open>rect_within r b\<close>: the edges of \<open>r\<close> lie between the edges of \<open>b\<close>. For rects of
  this kind the region of \<open>r\<close> is a subset of the region of \<open>b\<close>.
\<close>

definition rect_within :: "Rect \<Rightarrow> Rect \<Rightarrow> bool" where
  "rect_within r b \<longleftrightarrow>
     sint (rect_x b) \<le> sint (rect_x r) \<and>
     sint (rect_x r) + uint (rect_w r) \<le> sint (rect_x b) + uint (rect_w b) \<and>
     sint (rect_y b) \<le> sint (rect_y r) \<and>
     sint (rect_y r) + uint (rect_h r) \<le> sint (rect_y b) + uint (rect_h b)"

definition dirty_in_bounds :: "Surface \<Rightarrow> bool" where
  "dirty_in_bounds s \<longleftrightarrow> rect_within (GetDirtyRect s) (Bounds s)"

text \<open>
  \<open>marked s s'\<close>: the Surface \<open>s'\<close> is \<open>s\<close> after some calls of \<open>MarkDirty\<close>. Every
  drawing call changes the Surface in this way only.
\<close>

definition marked :: "Surface \<Rightarrow> Surface \<Rightarrow> bool" where
  "marked s s' \<longleftrightarrow> (\<exists>rects. s' = fold MarkDirty rects s)"

text \<open>
  The two overloads of \<open>PresentFrame\<close> as one call, so that a statement can range over
  every way to submit a frame.
\<close>

datatype submission = By_mode PresentMode | By_rect Rect

fun submit :: "'b Backend \<Rightarrow> submission \<Rightarrow> 'b Present \<Rightarrow> ErrorCode \<times> 'b Present" where
  "submit B (By_mode mode) s = PresentFrame B mode s"
| "submit B (By_rect dirty_rect) s = PresentFrame_rect B dirty_rect s"

text \<open>
  A call of \<open>PresentFrame\<close> has nothing to submit when the guard before \<open>SubmitFrame\<close>
  makes it return: the explicit rect, or the accumulated dirty rect in the two cases where
  it is used, is empty after clipping to the frame. The status it returns then is
  \<open>ARG_ERR\<close> for an explicit rect and \<open>OK\<close> for a mode.
\<close>

fun nothing_to_submit :: "'b Present \<Rightarrow> submission \<Rightarrow> bool" where
  "nothing_to_submit s (By_rect dirty_rect) \<longleftrightarrow> rect_empty (ClipToFrame dirty_rect (m_cfg s))"
| "nothing_to_submit s (By_mode mode) \<longleftrightarrow>
     partial_update (m_caps s) \<and>
     (mode = DIRTY \<or> (mode = AUTO \<and> enable_dirty_tracking (m_cfg s))) \<and>
     rect_empty (ClipToFrame (GetDirtyRect (m_surface s)) (m_cfg s))"

fun nothing_status :: "submission \<Rightarrow> ErrorCode" where
  "nothing_status (By_rect dirty_rect) = ARG_ERR"
| "nothing_status (By_mode mode) = OK"

text \<open>
  The caller draws through the reference that \<open>GetSurface\<close> returns: a sequence of
  Surface calls on \<open>surface_\<close> and on the framebuffers it points into.
\<close>

definition draw :: "surface_op list \<Rightarrow> 'b Present \<Rightarrow> 'b Present option" where
  "draw ops s =
     (case run_ops ops (m_surface s, m_framebuffers s) of
        None \<Rightarrow> None
      | Some c' \<Rightarrow> Some (s\<lparr>m_surface := fst c', m_framebuffers := snd c'\<rparr>))"

fun is_Bind :: "surface_op \<Rightarrow> bool" where
  "is_Bind (Op_Bind bits sz stride_bytes) = True"
| "is_Bind a = False"

text \<open>
  What holds of a Present once its constructor has succeeded, as long as the Surface
  handed out by \<open>GetSurface\<close> is drawn on and not bound to another buffer: the frame is
  not degenerate, the Surface has the size of the frame and points at the draw buffer, its
  dirty rect lies in the frame, and a transfer is in flight only on an asynchronous backend.
\<close>

definition Present_inv :: "'b Present \<Rightarrow> bool" where
  "Present_inv s \<longleftrightarrow>
     m_initialized s \<and> width (m_cfg s) \<noteq> 0 \<and> height (m_cfg s) \<noteq> 0 \<and>
     m_size (m_surface s) = \<lparr>size_w = width (m_cfg s), size_h = height (m_cfg s)\<rparr> \<and>
     m_bits (m_surface s) = Some (unat (m_draw_buffer_index s)) \<and>
     dirty_in_bounds (m_surface s) \<and>
     (m_transfer_in_progress s \<longrightarrow> async_present (m_caps s))"

subsection \<open>Concrete inputs for the examples\<close>

text \<open>
  A backend with fixed capabilities whose \<open>Present\<close> always returns the same status; its
  state counts the calls it has received. \<open>Init\<close>, \<open>SetPowerSave\<close> and \<open>SetContrast\<close>
  return \<open>OK\<close>.
\<close>

definition test_backend :: "BackendCaps \<Rightarrow> ErrorCode \<Rightarrow> nat Backend" where
  "test_backend caps status =
     \<lparr>be_Init = (\<lambda>b cfg. (OK, Suc b)),
      be_Caps = (\<lambda>b. caps),
      be_Present = (\<lambda>b st frame mode. (status, Suc b)),
      be_SetPowerSave = (\<lambda>b enable. (OK, Suc b)),
      be_SetContrast = (\<lambda>b v. (OK, Suc b))\<rparr>"

definition caps_of :: "bool \<Rightarrow> bool \<Rightarrow> bool \<Rightarrow> bool \<Rightarrow> BackendCaps" where
  "caps_of pu ps ct ap =
     \<lparr>partial_update = pu, power_save = ps, contrast = ct, async_present = ap\<rparr>"

definition no_caps :: BackendCaps where
  "no_caps = caps_of False False False False"

definition async_caps :: BackendCaps where
  "async_caps = caps_of False False False True"

definition async_partial_caps :: BackendCaps where
  "async_partial_caps = caps_of True False False True"

text \<open>A display of 16 by 2 pixels: two bytes per row, four bytes per framebuffer.\<close>

definition test_cfg :: DisplayConfig where
  "test_cfg =
     \<lparr>width = 16, height = 2, rotation = R0, buffer_mode = BufferMode_FULL, page_rows = 8,
      enable_dirty_tracking = True\<rparr>"

text \<open>
  A Present for this display on a test backend, as its constructor leaves it, with
  framebuffers of four bytes.
\<close>

definition test_present :: "BackendCaps \<Rightarrow> ErrorCode \<Rightarrow> nat Present" where
  "test_present caps status = Present_ctor (test_backend caps status) 4 0 test_cfg"

text \<open>
  The same after one successful submission in the default mode \<open>AUTO\<close>.
\<close>

definition test_present_submitted :: "BackendCaps \<Rightarrow> nat Present" where
  "test_present_submitted caps =
     snd (PresentFrame (test_backend caps OK) AUTO (test_present caps OK))"

text \<open>A Surface of 8 by 8 pixels bound to buffer 0 of a store, one byte per row.\<close>

definition test_surface :: Surface where
  "test_surface = Bind (Some 0) \<lparr>size_w = 8, size_h = 8\<rparr> 0 Surface_default"

text \<open>
  A font with the single glyph \<open>A\<close>, one pixel wide and high, whose bit is set; it has a
  descent and no ascent. The style draws it in white at the given vertical scale.
\<close>

definition test_font :: Font where
  "test_font =
     \<lparr>glyph_width = 1, glyph_height = 1, first_char = 65, last_char = 65, ascent = 0,
      descent = 2, glyphs = Some [0x80]\<rparr>"

definition test_style :: "u8 \<Rightarrow> TextStyle" where
  "test_style sy =
     \<lparr>font = Some test_font, color = WHITE, raster_op = COPY, scale_x = 1, scale_y = sy,
      letter_spacing = 0\<rparr>"

text \<open>
  A sequence of calls on a fresh Surface: bind it to an 8 by 8 buffer, draw a line that
  starts and ends outside of it, the outline of a rect far wider than the Surface, and a
  circle around its lower right corner.
\<close>

definition test_ops :: "surface_op list" where
  "test_ops =
     [Op_Bind (Some 0) \<lparr>size_w = 8, size_h = 8\<rparr> 0,
      Op_DrawLine (mk_Point (- 3) (- 2)) (mk_Point 20 5) WHITE COPY,
      Op_DrawRect (mk_Rect 2 1 300 3) WHITE XOR_op,
      Op_DrawCircle (mk_Point 7 7) 3 WHITE COPY]"

section \<open>Facts about the geometry\<close>

lemma sint16_word_of_int:
  "- 32768 \<le> k \<Longrightarrow> k < 32768 \<Longrightarrow> sint (word_of_int k :: 16 word) = k"
  by (simp add: sint_sbintrunc' signed_take_bit_int_eq_self)

lemma uint16_word_of_int:
  "0 \<le> k \<Longrightarrow> k < 65536 \<Longrightarrow> uint (word_of_int k :: 16 word) = k"
  by (simp add: uint_word_of_int)

lemma sint16_range: "- 32768 \<le> sint (v :: 16 word) \<and> sint v < 32768"
  using sint_ge [of v] sint_lt [of v] by simp

lemma uint16_range: "0 \<le> uint (v :: 16 word) \<and> uint v < 65536"
  using uint_lt2p [of v] by simp

lemma rect_fields [simp]:
  "rect_x (mk_Rect a b c d) = a" "rect_y (mk_Rect a b c d) = b"
  "rect_w (mk_Rect a b c d) = c" "rect_h (mk_Rect a b c d) = d"
  by (simp_all add: mk_Rect_def)

text \<open>
  The intersection is either the zero rect, or the rect between the inner edges; none of
  its casts to a 16-bit type loses anything.
\<close>

lemma intersect_rect_cases:
  fixes a b :: Rect
  defines "L \<equiv> max (sint (rect_x a)) (sint (rect_x b))"
    and "T \<equiv> max (sint (rect_y a)) (sint (rect_y b))"
    and "R \<equiv> min (sint (rect_x a) + uint (rect_w a)) (sint (rect_x b) + uint (rect_w b))"
    and "Bo \<equiv> min (sint (rect_y a) + uint (rect_h a)) (sint (rect_y b) + uint (rect_h b))"
  shows "(R \<le> L \<or> Bo \<le> T) \<and> intersect_rect a b = Rect_zero \<or>
         L < R \<and> T < Bo \<and> sint (rect_x (intersect_rect a b)) = L \<and>
         sint (rect_y (intersect_rect a b)) = T \<and>
         uint (rect_w (intersect_rect a b)) = R - L \<and>
         uint (rect_h (intersect_rect a b)) = Bo - T"
proof (cases "R \<le> L \<or> Bo \<le> T")
  case True
  then show ?thesis
    unfolding L_def T_def R_def Bo_def by (simp add: intersect_rect_def Let_def)
next
  case False
  note ra = sint16_range [of "rect_x a"] sint16_range [of "rect_x b"]
    sint16_range [of "rect_y a"] sint16_range [of "rect_y b"]
  note ua = uint16_range [of "rect_w a"] uint16_range [of "rect_w b"]
    uint16_range [of "rect_h a"] uint16_range [of "rect_h b"]
  have eq: "intersect_rect a b =
      mk_Rect (word_of_int L) (word_of_int T) (word_of_int (R - L)) (word_of_int (Bo - T))"
    using False unfolding L_def T_def R_def Bo_def
    by (simp only: intersect_rect_def Let_def if_False)
  have bL: "- 32768 \<le> L" "L < 32768" and bT: "- 32768 \<le> T" "T < 32768"
    using ra unfolding L_def T_def by linarith+
  have bW: "0 \<le> R - L" "R - L < 65536" and bH: "0 \<le> Bo - T" "Bo - T < 65536"
    using ra ua False unfolding L_def T_def R_def Bo_def by linarith+
  show ?thesis
    using False unfolding eq rect_fields
    by (simp only: sint16_word_of_int [OF bL] sint16_word_of_int [OF bT]
        uint16_word_of_int [OF bW] uint16_word_of_int [OF bH]) linarith
qed

lemma rect_empty_uint: "rect_empty r \<longleftrightarrow> uint (rect_w r) = 0 \<or> uint (rect_h r) = 0"
  by (simp add: rect_empty_def uint_0_iff)

lemma rect_empty_iff_pixels: "rect_empty r \<longleftrightarrow> rect_pixels r = {}"
proof -
  have "0 \<le> uint (rect_w r)" "0 \<le> uint (rect_h r)" by simp_all
  then show ?thesis
    unfolding rect_empty_uint rect_pixels_def Times_empty
    by (simp only: atLeastLessThan_empty_iff) linarith
qed

section \<open>Facts about the dirty rect\<close>

lemma uint_pos: "w \<noteq> 0 \<Longrightarrow> 0 < uint (w :: 16 word)"
  using uint_0_iff [of w] uint_ge_0 [of w] by linarith

lemma Rect_eqI:
  assumes "sint (rect_x r) = sint (rect_x r')" "sint (rect_y r) = sint (rect_y r')"
   "uint (rect_w r) = uint (rect_w r')" "uint (rect_h r) = uint (rect_h r')"
  shows "r = (r' :: Rect)"
proof -
  have "rect_x r = rect_x r'" "rect_y r = rect_y r'" 
    using assms(1,2) by (auto intro: signed_word_eqI)
  moreover have "rect_w r = rect_w r'" "rect_h r = rect_h r'"
    using assms(3,4) by (auto intro: word_uint_eqI)
  ultimately show ?thesis by simp
qed

lemma bounds_rect_fields [simp]:
  "sint (rect_x (bounds_rect sz)) = 0" "sint (rect_y (bounds_rect sz)) = 0"
  "rect_w (bounds_rect sz) = size_w sz" "rect_h (bounds_rect sz) = size_h sz"
  by (simp_all add: bounds_rect_def)

lemma Rect_zero_fields [simp]:
  "sint (rect_x Rect_zero) = 0" "sint (rect_y Rect_zero) = 0"
  "uint (rect_w Rect_zero) = 0" "uint (rect_h Rect_zero) = 0"
  by (simp_all add: Rect_zero_def)

lemma rect_within_zero: "rect_within Rect_zero (bounds_rect sz)"
  by (simp add: rect_within_def)

lemma rect_within_intersect_bounds:
  "rect_within (intersect_rect r (bounds_rect sz)) (bounds_rect sz)"
  using intersect_rect_cases [of r "bounds_rect sz"]
  by (auto simp add: rect_within_def)

lemma union_rect_within_bounds:
  assumes a: "rect_within a (bounds_rect sz)" and c: "rect_within c (bounds_rect sz)"
  shows "rect_within (union_rect a c) (bounds_rect sz)"
proof (cases "rect_empty a \<or> rect_empty c")
  case True
  then show ?thesis using a c by (auto simp add: union_rect_def)
next
  case False
  define L where "L = min (sint (rect_x a)) (sint (rect_x c))"
  define T where "T = min (sint (rect_y a)) (sint (rect_y c))"
  define R where "R = max (sint (rect_x a) + uint (rect_w a)) (sint (rect_x c) + uint (rect_w c))"
  define Bo where "Bo = max (sint (rect_y a) + uint (rect_h a)) (sint (rect_y c) + uint (rect_h c))"
  have eq: "union_rect a c =
      mk_Rect (word_of_int L) (word_of_int T) (word_of_int (R - L)) (word_of_int (Bo - T))"
    using False unfolding L_def T_def R_def Bo_def
    by (simp add: union_rect_def Let_def)
  note ua = uint16_range [of "size_w sz"] uint16_range [of "size_h sz"]
    uint16_range [of "rect_w a"] uint16_range [of "rect_h a"]
    uint16_range [of "rect_w c"] uint16_range [of "rect_h c"]
  note w = a [unfolded rect_within_def bounds_rect_fields]
    c [unfolded rect_within_def bounds_rect_fields]
  have bL: "- 32768 \<le> L" "L < 32768" and bT: "- 32768 \<le> T" "T < 32768"
    using sint16_range [of "rect_x a"] sint16_range [of "rect_y a"]
      sint16_range [of "rect_x c"] sint16_range [of "rect_y c"]
    unfolding L_def T_def by linarith+
  have bW: "0 \<le> R - L" "R - L < 65536" and bH: "0 \<le> Bo - T" "Bo - T < 65536"
    using w ua unfolding L_def T_def R_def Bo_def by linarith+
  have "0 \<le> L" "L + (R - L) \<le> uint (size_w sz)" "0 \<le> T" "T + (Bo - T) \<le> uint (size_h sz)"
    using w ua unfolding L_def T_def R_def Bo_def by linarith+
  then show ?thesis
    unfolding eq rect_within_def rect_fields bounds_rect_fields
    by (simp only: sint16_word_of_int [OF bL] sint16_word_of_int [OF bT]
        uint16_word_of_int [OF bW] uint16_word_of_int [OF bH]) simp
qed

lemma MarkDirty_fields [simp]:
  "m_size (MarkDirty r s) = m_size s" "m_bits (MarkDirty r s) = m_bits s"
  "m_clip (MarkDirty r s) = m_clip s" "m_stride_bytes (MarkDirty r s) = m_stride_bytes s"
  by (simp_all add: MarkDirty_def Let_def)

lemma MarkDirty_in_bounds:
  assumes "dirty_in_bounds s"
  shows "dirty_in_bounds (MarkDirty r s)"
  using assms rect_within_intersect_bounds [of r "m_size s"]
    union_rect_within_bounds [of "m_dirty s" "m_size s" "intersect_rect r (bounds_rect (m_size s))"]
  by (simp add: dirty_in_bounds_def MarkDirty_def Let_def GetDirtyRect_def Bounds_def)

lemma intersect_rect_bounds_self:
  assumes "size_w sz \<noteq> 0" "size_h sz \<noteq> 0"
  shows "intersect_rect (bounds_rect sz) (bounds_rect sz) = bounds_rect sz"
  using assms uint_pos [of "size_w sz"] uint_pos [of "size_h sz"]
  by (simp add: intersect_rect_def Let_def bounds_rect_def)

lemma union_rect_bounds:
  assumes "rect_within d (bounds_rect sz)" "size_w sz \<noteq> 0" "size_h sz \<noteq> 0"
  shows "union_rect d (bounds_rect sz) = bounds_rect sz"
proof (cases "rect_empty d")
  case True
  then show ?thesis by (simp add: union_rect_def)
next
  case False
  have ne: "\<not> rect_empty (bounds_rect sz)" using assms by (simp add: rect_empty_def)
  note ua = uint16_range [of "size_w sz"] uint16_range [of "size_h sz"]
    uint16_range [of "rect_w d"] uint16_range [of "rect_h d"]
  note w = assms(1) [unfolded rect_within_def bounds_rect_fields]
  have m: "min (sint (rect_x d)) 0 = 0" "min (sint (rect_y d)) 0 = 0"
    "max (sint (rect_x d) + uint (rect_w d)) (uint (size_w sz)) = uint (size_w sz)"
    "max (sint (rect_y d) + uint (rect_h d)) (uint (size_h sz)) = uint (size_h sz)"
    using w by linarith+
  show ?thesis
    using False ne
    by (simp add: union_rect_def Let_def m) (simp add: bounds_rect_def)
qed

lemma MarkDirty_bounds:
  assumes "dirty_in_bounds s" "size_w (m_size s) \<noteq> 0" "size_h (m_size s) \<noteq> 0"
  shows "m_dirty (MarkDirty (bounds_rect (m_size s)) s) = bounds_rect (m_size s)"
  using assms intersect_rect_bounds_self [of "m_size s"]
    union_rect_bounds [of "m_dirty s" "m_size s"]
  by (simp add: MarkDirty_def Let_def Bounds_def dirty_in_bounds_def GetDirtyRect_def
      rect_empty_def)

section \<open>What drawing does to the Surface\<close>

lemma marked_refl: "marked s s"
  unfolding marked_def by (rule exI [of _ "[]"]) simp

lemma marked_MarkDirty: "marked s (MarkDirty r s)"
  unfolding marked_def by (rule exI [of _ "[r]"]) simp

lemma marked_trans: "marked s s' \<Longrightarrow> marked s' s'' \<Longrightarrow> marked s s''"
  unfolding marked_def
proof -
  assume "\<exists>rects. s' = fold MarkDirty rects s" "\<exists>rects. s'' = fold MarkDirty rects s'"
  then obtain r1 r2 where "s' = fold MarkDirty r1 s" "s'' = fold MarkDirty r2 s'" by blast
  then have "s'' = fold MarkDirty (r1 @ r2) s" by simp
  then show "\<exists>rects. s'' = fold MarkDirty rects s" ..
qed

lemma fold_MarkDirty_fields:
  "m_size (fold MarkDirty rs s) = m_size s \<and> m_bits (fold MarkDirty rs s) = m_bits s \<and>
   m_clip (fold MarkDirty rs s) = m_clip s \<and>
   m_stride_bytes (fold MarkDirty rs s) = m_stride_bytes s"
  by (induction rs arbitrary: s) simp_all

lemma fold_MarkDirty_in_bounds:
  "dirty_in_bounds s \<Longrightarrow> dirty_in_bounds (fold MarkDirty rs s)"
  by (induction rs arbitrary: s) (simp_all add: MarkDirty_in_bounds)

lemma marked_fields:
  assumes "marked s s'"
  shows "m_size s' = m_size s" "m_bits s' = m_bits s" "m_clip s' = m_clip s"
    "m_stride_bytes s' = m_stride_bytes s"
  using assms fold_MarkDirty_fields unfolding marked_def by auto

lemma marked_in_bounds: "marked s s' \<Longrightarrow> dirty_in_bounds s \<Longrightarrow> dirty_in_bounds s'"
  unfolding marked_def using fold_MarkDirty_in_bounds by auto

lemma Clear_marked: "marked (fst c) (fst (Clear col c))"
  by (simp add: Clear_def Let_def marked_refl marked_MarkDirty split: option.split)

lemma DrawPixel_marked: "marked (fst c) (fst (DrawPixel p col rop c))"
  by (simp add: DrawPixel_def Let_def marked_refl marked_MarkDirty)

lemma DrawHLine_marked: "marked (fst c) (fst (DrawHLine p len col rop c))"
  by (simp add: DrawHLine_def Let_def marked_refl marked_MarkDirty)

lemma DrawVLine_marked: "marked (fst c) (fst (DrawVLine p len col rop c))"
  by (simp add: DrawVLine_def Let_def marked_refl marked_MarkDirty)

lemma DrawRect_marked: "marked (fst c) (fst (DrawRect r col rop c))"
proof -
  note t = marked_trans [OF _ DrawHLine_marked] marked_trans [OF _ DrawVLine_marked]
  show ?thesis
    by (simp add: DrawRect_def Let_def marked_refl DrawHLine_marked t)
qed

lemma fold_marked:
  assumes "\<And>x c. marked (fst c) (fst (f x c))"
  shows "marked (fst c) (fst (fold f xs c))"
proof (induction xs arbitrary: c)
  case Nil
  show ?case by (simp add: marked_refl)
next
  case (Cons x xs)
  from marked_trans [OF assms [of c x] Cons.IH [of "f x c"] ] show ?case by simp
qed

lemma FillRect_marked: "marked (fst c) (fst (FillRect r col rop c))"
  by (simp add: FillRect_def Let_def marked_refl fold_marked DrawHLine_marked)

lemma DrawCircle_points_marked: "marked (fst c) (fst (DrawCircle_points ce x y col rop c))"
proof -
  note t = marked_trans [OF _ DrawPixel_marked]
  show ?thesis
    unfolding DrawCircle_points_def Let_def
    by (intro t DrawPixel_marked)
qed

lemma DrawCircle_loop_marked: "marked (fst c) (fst (DrawCircle_loop ce col rop x y err c))"
proof (induction ce col rop x y err c rule: DrawCircle_loop.induct)
  case (1 center col rop x y err c)
  show ?case
  proof (cases "x \<ge> y")
    case True
    note p = DrawCircle_points_marked [of c center x y col rop]
    show ?thesis
    proof (cases "err < 0")
      case e: True
      from marked_trans [OF p "1.IH"(1) [OF True refl refl e] ] True e show ?thesis
        by (subst DrawCircle_loop.simps) (simp add: Let_def)
    next
      case e: False
      from marked_trans [OF p "1.IH"(2) [OF True refl refl e] ] True e show ?thesis
        by (subst DrawCircle_loop.simps) (simp add: Let_def)
    qed
  next
    case False
    then show ?thesis by (subst DrawCircle_loop.simps) (simp add: marked_refl)
  qed
qed

lemma DrawCircle_marked: "marked (fst c) (fst (DrawCircle ce r col rop c))"
  by (simp add: DrawCircle_def DrawCircle_loop_marked)

lemma DrawBitmap_marked: "marked (fst c) (fst (DrawBitmap p bits sz col rop c))"
  apply (simp add: DrawBitmap_def Let_def marked_refl split: option.split)
  apply (intro allI impI fold_marked)
  apply (simp add: DrawPixel_marked marked_refl)
  done

lemma DrawText_glyph_marked: "marked (fst c) (fst (DrawText_glyph f style tbl CH cx ty c))"
  apply (simp add: DrawText_glyph_def Let_def)
  apply (intro fold_marked)
  apply (simp add: FillRect_marked marked_refl)
  done

lemma DrawText_loop_marked:
  "marked (fst c) (fst (DrawText_loop f style tbl bl p cx by' c))"
proof (induction p arbitrary: cx by' c)
  case Nil
  show ?case by (simp add: marked_refl)
next
  case (Cons ch p)
  note g = marked_trans [OF DrawText_glyph_marked Cons.IH]
  show ?case by (simp add: Let_def marked_refl Cons.IH g)
qed

lemma DrawText_marked: "marked (fst c) (fst (DrawText bl text style c))"
  by (simp add: DrawText_def DrawText_loop_marked marked_refl split: option.split)

lemma DrawTextTopLeft_marked: "marked (fst c) (fst (DrawTextTopLeft top_left text style c))"
  by (simp add: DrawTextTopLeft_def Let_def DrawText_marked split: option.split)

text \<open>
  The loop of \<open>DrawLine\<close> returns. \<open>rx\<close> and \<open>ry\<close> are the distances still to go in
  each direction; the error term is a function of them, from which it follows that a step
  in a direction is only taken while there is distance left in it, and each round takes a
  step.
\<close>

lemma DrawLine_loop_returns:
  fixes DX dy rx ry :: int
  assumes "0 \<le> rx" "rx \<le> DX" "0 \<le> ry" "ry \<le> dy"
    and "SX = 1 \<or> SX = - 1" "SY = 1 \<or> SY = - 1"
    and "x0 = X1 - SX * rx" "y0 = Y1 - SY * ry"
    and "err = DX - dy + dy * rx - DX * ry"
  shows "\<exists>c'. DrawLine_loop X1 Y1 DX SX (- dy) SY col rop x0 y0 err c = Some c' \<and>
              marked (fst c) (fst c')"
  using assms
proof (induction "nat (rx + ry)" arbitrary: rx ry x0 y0 err c rule: less_induct)
  case less
  define c1 where "c1 = DrawPixel (mk_Point (word_of_int x0) (word_of_int y0)) col rop c"
  have c1: "marked (fst c) (fst c1)"
    unfolding c1_def by (rule DrawPixel_marked)
  have x: "x0 = X1 \<longleftrightarrow> rx = 0" using less.prems(5,7) by auto
  have y: "y0 = Y1 \<longleftrightarrow> ry = 0" using less.prems(6,8) by auto
  show ?case
  proof (cases "rx = 0 \<and> ry = 0")
    case True
    then show ?thesis
      using c1 x y unfolding c1_def
      by (subst DrawLine_loop.simps) (simp add: Let_def)
  next
    case False
    define stepx where "stepx \<longleftrightarrow> 2 * err \<ge> - dy"
    define stepy where "stepy \<longleftrightarrow> 2 * err \<le> DX"
    have DX: "0 \<le> DX" and dy: "0 \<le> dy" using less.prems(1-4) by linarith+
    have some: "stepx \<or> stepy" unfolding stepx_def stepy_def using DX dy by linarith
    have sx: "0 < rx" if stepx
    proof (rule ccontr)
      assume "\<not> 0 < rx"
      then have rx: "rx = 0" using less.prems(1) by linarith
      then have ry: "1 \<le> ry" using False less.prems(3) by linarith
      have "DX * 1 \<le> DX * ry" using ry DX by (intro mult_left_mono) simp_all
      then show False
        using that less.prems(4,9) rx ry unfolding stepx_def by simp
    qed
    have sy: "0 < ry" if stepy
    proof (rule ccontr)
      assume "\<not> 0 < ry"
      then have ry: "ry = 0" using less.prems(3) by linarith
      then have rx: "1 \<le> rx" using False less.prems(1) by linarith
      have "dy * 1 \<le> dy * rx" using rx dy by (intro mult_left_mono) simp_all
      then show False
        using that less.prems(2,9) rx ry unfolding stepy_def by simp
    qed
    define rx' where "rx' = (if stepx then rx - 1 else rx)"
    define ry' where "ry' = (if stepy then ry - 1 else ry)"
    define x0' where "x0' = (if stepx then x0 + SX else x0)"
    define y0' where "y0' = (if stepy then y0 + SY else y0)"
    define err' where "err' = (if stepy then (if stepx then err + - dy else err) + DX
                               else (if stepx then err + - dy else err))"
    have m: "nat (rx' + ry') < nat (rx + ry)"
      using some sx sy less.prems(1,3) unfolding rx'_def ry'_def by auto
    have b: "0 \<le> rx'" "rx' \<le> DX" "0 \<le> ry'" "ry' \<le> dy"
      using sx sy less.prems(1-4) unfolding rx'_def ry'_def by auto
    have px: "x0' = X1 - SX * rx'"
      using less.prems(7) unfolding x0'_def rx'_def by (simp add: algebra_simps)
    have py: "y0' = Y1 - SY * ry'"
      using less.prems(8) unfolding y0'_def ry'_def by (simp add: algebra_simps)
    have pe: "err' = DX - dy + dy * rx' - DX * ry'"
      using less.prems(9) unfolding err'_def rx'_def ry'_def by (simp add: algebra_simps)
    from less.hyps [OF m b less.prems(5,6) px py pe, of c1]
    obtain c' where r: "DrawLine_loop X1 Y1 DX SX (- dy) SY col rop x0' y0' err' c1 = Some c'"
      and i: "marked (fst c1) (fst c')"
      by blast
    have ne: "\<not> (x0 = X1 \<and> y0 = Y1)" using False x y by simp
    have "DrawLine_loop X1 Y1 DX SX (- dy) SY col rop x0 y0 err c =
        DrawLine_loop X1 Y1 DX SX (- dy) SY col rop x0' y0' err' c1"
      unfolding c1_def x0'_def y0'_def err'_def stepx_def stepy_def
      by (subst DrawLine_loop.simps) (simp add: Let_def ne)
    with r marked_trans [OF c1 i] show ?thesis by simp
  qed
qed

lemma DrawLine_returns:
  "\<exists>c'. DrawLine p0 p1 col rop c = Some c' \<and> marked (fst c) (fst c')"
proof -
  define x0 where "x0 = sint (point_x p0)"
  define y0 where "y0 = sint (point_y p0)"
  define X1 where "X1 = sint (point_x p1)"
  define Y1 where "Y1 = sint (point_y p1)"
  define SX :: int where "SX = (if x0 < X1 then 1 else - 1)"
  define SY :: int where "SY = (if y0 < Y1 then 1 else - 1)"
  have "\<exists>c'. DrawLine_loop X1 Y1 \<bar>X1 - x0\<bar> SX (- \<bar>Y1 - y0\<bar>) SY col rop x0 y0
      (\<bar>X1 - x0\<bar> - \<bar>Y1 - y0\<bar> + \<bar>Y1 - y0\<bar> * \<bar>X1 - x0\<bar> - \<bar>X1 - x0\<bar> * \<bar>Y1 - y0\<bar>) c = Some c' \<and>
      marked (fst c) (fst c')"
    by (rule DrawLine_loop_returns [where rx = "\<bar>X1 - x0\<bar>" and ry = "\<bar>Y1 - y0\<bar>"])
      (auto simp add: SX_def SY_def)
  moreover have "\<bar>X1 - x0\<bar> - \<bar>Y1 - y0\<bar> + \<bar>Y1 - y0\<bar> * \<bar>X1 - x0\<bar> - \<bar>X1 - x0\<bar> * \<bar>Y1 - y0\<bar> =
      \<bar>X1 - x0\<bar> + - \<bar>Y1 - y0\<bar>"
    by (simp add: algebra_simps)
  ultimately show ?thesis
    unfolding DrawLine_def Let_def x0_def y0_def X1_def Y1_def SX_def SY_def by simp
qed

section \<open>Calls that keep the dirty rect in the bounds\<close>

lemma rect_within_pixels: "rect_within r b \<Longrightarrow> rect_pixels r \<subseteq> rect_pixels b"
  by (auto simp add: rect_within_def rect_pixels_def)

lemma Surface_default_in_bounds: "dirty_in_bounds Surface_default"
  by (simp add: dirty_in_bounds_def Surface_default_def GetDirtyRect_def Bounds_def
      rect_within_zero)

lemma ClearDirtyRect_in_bounds: "dirty_in_bounds (ClearDirtyRect s)"
  by (simp add: dirty_in_bounds_def ClearDirtyRect_def GetDirtyRect_def Bounds_def
      rect_within_zero)

lemma Bind_in_bounds: "dirty_in_bounds (Bind bits sz stride s)"
  by (simp add: dirty_in_bounds_def Bind_def ClearDirtyRect_def ResetClip_def GetDirtyRect_def
      Bounds_def rect_within_zero)

lemma SetClip_in_bounds: "dirty_in_bounds s \<Longrightarrow> dirty_in_bounds (SetClip r s)"
  by (simp add: dirty_in_bounds_def SetClip_def GetDirtyRect_def Bounds_def)

lemma ResetClip_in_bounds: "dirty_in_bounds s \<Longrightarrow> dirty_in_bounds (ResetClip s)"
  by (simp add: dirty_in_bounds_def ResetClip_def GetDirtyRect_def Bounds_def)

lemma run_op_returns:
  assumes "dirty_in_bounds (fst c)"
  shows "\<exists>c'. run_op a c = Some c' \<and> dirty_in_bounds (fst c')"
proof (cases a)
  case (Op_DrawLine p0 p1 col rop)
  from DrawLine_returns [of p0 p1 col rop c] obtain c'
    where "DrawLine p0 p1 col rop c = Some c'" "marked (fst c) (fst c')" by blast
  with assms Op_DrawLine show ?thesis by (auto intro: marked_in_bounds)
qed (use assms in \<open>simp_all add: Bind_in_bounds SetClip_in_bounds ResetClip_in_bounds
      ClearDirtyRect_in_bounds AddDirtyRect_def MarkDirty_in_bounds
      DrawText_op_def DrawTextTopLeft_op_def
      marked_in_bounds [OF Clear_marked] marked_in_bounds [OF DrawPixel_marked]
      marked_in_bounds [OF DrawHLine_marked] marked_in_bounds [OF DrawVLine_marked]
      marked_in_bounds [OF DrawRect_marked] marked_in_bounds [OF FillRect_marked]
      marked_in_bounds [OF DrawCircle_marked] marked_in_bounds [OF DrawBitmap_marked]
      marked_in_bounds [OF DrawText_marked] marked_in_bounds [OF DrawTextTopLeft_marked]\<close>)

lemma run_ops_returns:
  "dirty_in_bounds (fst c) \<Longrightarrow> \<exists>c'. run_ops ops c = Some c' \<and> dirty_in_bounds (fst c')"
proof (induction ops arbitrary: c)
  case Nil
  then show ?case by simp
next
  case (Cons a ops)
  from run_op_returns [OF Cons.prems, of a] obtain c1
    where "run_op a c = Some c1" "dirty_in_bounds (fst c1)" by blast
  with Cons.IH [of c1] show ?case by simp
qed

section \<open>Facts about submission\<close>

lemma call_Present_simps:
  "fst (call_Present B frame mode s) = fst (be_Present B (m_backend s) (m_framebuffers s) frame mode)"
  "backend_log (snd (call_Present B frame mode s)) = backend_log s @ [Call_Present frame mode (fst (call_Present B frame mode s))]"
  "m_surface (snd (call_Present B frame mode s)) = m_surface s"
  "m_cfg (snd (call_Present B frame mode s)) = m_cfg s"
  "m_caps (snd (call_Present B frame mode s)) = m_caps s"
  "m_framebuffers (snd (call_Present B frame mode s)) = m_framebuffers s"
  "m_draw_buffer_index (snd (call_Present B frame mode s)) = m_draw_buffer_index s"
  "m_transfer_in_progress (snd (call_Present B frame mode s)) = m_transfer_in_progress s"
  "m_initialized (snd (call_Present B frame mode s)) = m_initialized s"
  "m_in_frame (snd (call_Present B frame mode s)) = m_in_frame s"
  by (simp_all add: call_Present_def Let_def)

lemma call_Present_state:
  "snd (call_Present B frame mode s) = s\<lparr>m_backend := m_backend (snd (call_Present B frame mode s)),
       backend_log := backend_log (snd (call_Present B frame mode s))\<rparr>"
  by (simp add: call_Present_def Let_def)

lemma CopyRegionBetweenBuffers_fields:
  "backend_log (CopyRegionBetweenBuffers i j r s) = backend_log s"
  "m_backend (CopyRegionBetweenBuffers i j r s) = m_backend s"
  "m_cfg (CopyRegionBetweenBuffers i j r s) = m_cfg s"
  "m_caps (CopyRegionBetweenBuffers i j r s) = m_caps s"
  "m_surface (CopyRegionBetweenBuffers i j r s) = m_surface s"
  "m_draw_buffer_index (CopyRegionBetweenBuffers i j r s) = m_draw_buffer_index s"
  "m_transfer_in_progress (CopyRegionBetweenBuffers i j r s) = m_transfer_in_progress s"
  "m_initialized (CopyRegionBetweenBuffers i j r s) = m_initialized s"
  "m_in_frame (CopyRegionBetweenBuffers i j r s) = m_in_frame s"
  by (simp_all add: CopyRegionBetweenBuffers_def Let_def)

lemma SwapToNextDrawBuffer_fields:
  "backend_log (SwapToNextDrawBuffer r s) = backend_log s"
  "m_backend (SwapToNextDrawBuffer r s) = m_backend s"
  "m_cfg (SwapToNextDrawBuffer r s) = m_cfg s"
  "m_caps (SwapToNextDrawBuffer r s) = m_caps s"
  "m_transfer_in_progress (SwapToNextDrawBuffer r s) = m_transfer_in_progress s"
  "m_initialized (SwapToNextDrawBuffer r s) = m_initialized s"
  "m_in_frame (SwapToNextDrawBuffer r s) = m_in_frame s"
  "m_draw_buffer_index (SwapToNextDrawBuffer r s) = m_draw_buffer_index s XOR 1"
  by (simp_all add: SwapToNextDrawBuffer_def Let_def BindDrawSurface_def
      CopyRegionBetweenBuffers_fields)

text \<open>The three ways SubmitFrame can go.\<close>

lemma SubmitFrame_busy:
  "async_present (m_caps s) \<Longrightarrow> m_transfer_in_progress s \<Longrightarrow>
   SubmitFrame B region mode s = (BUSY, s)"
  by (simp add: SubmitFrame_def Let_def)

lemma SubmitFrame_status:
  "\<not> (async_present (m_caps s) \<and> m_transfer_in_progress s) \<Longrightarrow>
   fst (SubmitFrame B region mode s) =
     fst (be_Present B (m_backend s) (m_framebuffers s) (frame_view s region) mode)"
  by (simp add: SubmitFrame_def Let_def call_Present_simps)

lemma SubmitFrame_log:
  "\<not> (async_present (m_caps s) \<and> m_transfer_in_progress s) \<Longrightarrow>
   backend_log (snd (SubmitFrame B region mode s)) =
     backend_log s @ [Call_Present (frame_view s region) mode (fst (SubmitFrame B region mode s))]"
  by (simp add: SubmitFrame_def Let_def call_Present_simps SwapToNextDrawBuffer_fields)

lemma SubmitFrame_failed:
  assumes "\<not> (async_present (m_caps s) \<and> m_transfer_in_progress s)"
    and "fst (SubmitFrame B region mode s) \<noteq> OK"
  shows "snd (SubmitFrame B region mode s) =
           s\<lparr>m_backend := m_backend (snd (SubmitFrame B region mode s)),
             backend_log := backend_log (snd (SubmitFrame B region mode s))\<rparr>"
  using assms
  by (simp add: SubmitFrame_def Let_def call_Present_simps split: if_splits)

lemma SubmitFrame_async_ok:
  assumes "async_present (m_caps s)" "\<not> m_transfer_in_progress s"
    and "fst (SubmitFrame B region mode s) = OK"
  shows "m_transfer_in_progress (snd (SubmitFrame B region mode s))"
  using assms
  by (simp add: SubmitFrame_def Let_def call_Present_simps SwapToNextDrawBuffer_fields
      split: if_splits)

lemma SubmitFrame_fields:
  "m_cfg (snd (SubmitFrame B region mode s)) = m_cfg s"
  "m_caps (snd (SubmitFrame B region mode s)) = m_caps s"
  "m_initialized (snd (SubmitFrame B region mode s)) = m_initialized s"
  "m_in_frame (snd (SubmitFrame B region mode s)) = m_in_frame s"
  by (simp_all add: SubmitFrame_def Let_def call_Present_simps SwapToNextDrawBuffer_fields)


text \<open>
  Every way to submit either returns at once and leaves the state alone, or is one call
  of \<open>SubmitFrame\<close>.
\<close>

lemma submit_cases:
  "snd (submit B q s) = s \<and> fst (submit B q s) \<in> {INIT_ERR, OK, ARG_ERR} \<or>
   (\<exists>region mode. m_initialized s \<and> submit B q s = SubmitFrame B region mode s)"
  by (cases q) (auto simp add: PresentFrame_def PresentFrame_rect_def Let_def)

lemma log_grows: "xs = xs @ [a] \<longleftrightarrow> False"
  by simp

lemma submit_called:
  assumes "backend_log (snd (submit B q s)) = backend_log s @ [Call_Present f m r]"
  shows "fst (submit B q s) = r \<and> m_initialized s \<and>
         \<not> (async_present (m_caps s) \<and> m_transfer_in_progress s) \<and>
         (\<exists>region. submit B q s = SubmitFrame B region m s \<and> f = frame_view s region)"
proof -
  from submit_cases [of B q s] assms
  obtain region mode where i: "m_initialized s"
    and eq: "submit B q s = SubmitFrame B region mode s"
    by auto
  have nb: "\<not> (async_present (m_caps s) \<and> m_transfer_in_progress s)"
    using assms eq by (auto simp add: SubmitFrame_busy)
  have "backend_log s @ [Call_Present (frame_view s region) mode
            (fst (SubmitFrame B region mode s))] = backend_log s @ [Call_Present f m r]"
    using SubmitFrame_log [OF nb, of B region mode] assms eq by metis
  then have "f = frame_view s region \<and> m = mode \<and> r = fst (SubmitFrame B region mode s)"
    by auto
  with i nb eq show ?thesis by auto
qed

lemma PresentFrame_FULL:
  "m_initialized s \<Longrightarrow> PresentFrame B FULL s = SubmitFrame B (FullRect (m_cfg s)) FULL s"
  by (simp add: PresentFrame_def Let_def)

lemma submit_in_flight:
  assumes "async_present (m_caps s)" "m_transfer_in_progress s"
  shows "snd (submit B q s) = s"
  using submit_cases [of B q s] assms by (auto simp add: SubmitFrame_busy)

text \<open>
  A call with nothing to submit returns at once; every other call on an initialized Present
  is one call of \<open>SubmitFrame\<close>.
\<close>

lemma submit_nothing:
  "m_initialized s \<Longrightarrow> nothing_to_submit s q \<Longrightarrow> submit B q s = (nothing_status q, s)"
  by (cases q) (auto simp add: PresentFrame_def PresentFrame_rect_def Let_def)

lemma submit_something:
  assumes "m_initialized s" "\<not> nothing_to_submit s q"
  shows "\<exists>region mode. submit B q s = SubmitFrame B region mode s"
proof (cases q)
  case (By_mode mode)
  with assms show ?thesis
    by (cases mode) (auto simp add: PresentFrame_def Let_def)
next
  case (By_rect r)
  with assms show ?thesis
    by (auto simp add: PresentFrame_rect_def Let_def)
qed

lemma submit_uninitialized: "\<not> m_initialized s \<Longrightarrow> submit B q s = (INIT_ERR, s)"
  by (cases q) (simp_all add: PresentFrame_def PresentFrame_rect_def)

text \<open>
  The two states of an asynchronous Present and the steps between them.
\<close>

lemma async_transitions:
  assumes "m_initialized s" and "async_present (m_caps s)"
  shows "(\<not> IsTransferInProgress s \<and>
          backend_log (snd (submit B q s)) = backend_log s @ [Call_Present f m OK] \<longrightarrow>
            fst (submit B q s) = OK \<and> IsTransferInProgress (snd (submit B q s)) \<and>
            m_initialized (snd (submit B q s)) \<and> async_present (m_caps (snd (submit B q s)))) \<and>
         (IsTransferInProgress s \<longrightarrow>
            SubmitFrame B region mode s = (BUSY, s) \<and>
            submit B q s = (if nothing_to_submit s q then nothing_status q else BUSY, s) \<and>
            OnTransferDone s = (OK, s\<lparr>m_transfer_in_progress := False\<rparr>) \<and>
            \<not> IsTransferInProgress (snd (OnTransferDone s)) \<and>
            m_initialized (snd (OnTransferDone s)) \<and>
            async_present (m_caps (snd (OnTransferDone s))))"
proof -
  have a: "fst (submit B q s) = OK \<and> IsTransferInProgress (snd (submit B q s)) \<and>
      m_initialized (snd (submit B q s)) \<and> async_present (m_caps (snd (submit B q s)))"
    if n: "\<not> IsTransferInProgress s"
      and l: "backend_log (snd (submit B q s)) = backend_log s @ [Call_Present f m OK]"
  proof -
    from submit_called [OF l] obtain r where ok: "fst (submit B q s) = OK"
      and eq: "submit B q s = SubmitFrame B r m s"
      by auto
    have "fst (SubmitFrame B r m s) = OK" using ok eq by simp
    from SubmitFrame_async_ok [OF assms(2) n [unfolded IsTransferInProgress_def] this] ok assms
    show ?thesis
      unfolding eq by (simp add: SubmitFrame_fields IsTransferInProgress_def)
  qed
  have b: "SubmitFrame B region mode s = (BUSY, s) \<and>
      submit B q s = (if nothing_to_submit s q then nothing_status q else BUSY, s) \<and>
      OnTransferDone s = (OK, s\<lparr>m_transfer_in_progress := False\<rparr>) \<and>
      \<not> IsTransferInProgress (snd (OnTransferDone s)) \<and>
      m_initialized (snd (OnTransferDone s)) \<and>
      async_present (m_caps (snd (OnTransferDone s)))"
    if t: "IsTransferInProgress s"
  proof -
    have fl: "m_transfer_in_progress s" using t by (simp add: IsTransferInProgress_def)
    have busy: "SubmitFrame B r m' s = (BUSY, s)" for r m'
      using assms(2) fl by (rule SubmitFrame_busy)
    have sub: "submit B q s = (if nothing_to_submit s q then nothing_status q else BUSY, s)"
    proof (cases "nothing_to_submit s q")
      case True
      with submit_nothing [OF assms(1) True, of B] show ?thesis by simp
    next
      case False
      from submit_something [OF assms(1) False, of B] busy False show ?thesis by auto
    qed
    have dn: "OnTransferDone s = (OK, s\<lparr>m_transfer_in_progress := False\<rparr>)"
      using assms fl by (simp add: OnTransferDone_def)
    show ?thesis
      using busy sub assms unfolding dn by (simp add: IsTransferInProgress_def)
  qed
  from a b show ?thesis by blast
qed


lemma draw_fields:
  assumes "draw ops s = Some t"
  shows "m_initialized t = m_initialized s" "m_caps t = m_caps s" "m_cfg t = m_cfg s"
    "m_transfer_in_progress t = m_transfer_in_progress s" "backend_log t = backend_log s"
    "m_backend t = m_backend s" "m_draw_buffer_index t = m_draw_buffer_index s"
    "m_in_frame t = m_in_frame s"
  using assms by (auto simp add: draw_def split: option.splits)

section \<open>The invariant of an initialized Present\<close>

text \<open>
  The constructor establishes \<open>Present_inv\<close> whenever it succeeds, and every member
  function keeps it, as does drawing on the Surface.
\<close>

lemma Bind_fields:
  "m_size (Bind bits sz stride s) = sz" "m_bits (Bind bits sz stride s) = bits"
  by (simp_all add: Bind_def ClearDirtyRect_def ResetClip_def)

lemma ClearDirtyRect_fields:
  "m_size (ClearDirtyRect s) = m_size s" "m_bits (ClearDirtyRect s) = m_bits s"
  by (simp_all add: ClearDirtyRect_def)

lemma Present_ctor_inv:
  assumes "m_initialized (Present_ctor B k b cfg)"
  shows "Present_inv (Present_ctor B k b cfg)"
proof -
  have w: "width cfg \<noteq> 0" "height cfg \<noteq> 0"
    using assms by (auto simp add: Present_ctor_def Present_members_def Let_def split: if_splits)
  have d: "dirty_in_bounds (AddDirtyRect r (ClearDirtyRect (Bind bits sz stride s)))"
    for r bits sz stride s
    unfolding AddDirtyRect_def by (intro MarkDirty_in_bounds ClearDirtyRect_in_bounds)
  show ?thesis
    using assms w d
    by (auto simp add: Present_ctor_def Present_members_def Let_def Present_inv_def
        BindDrawSurface_def ClearAllBuffers_def AddDirtyRect_def Bind_fields
        ClearDirtyRect_fields split: if_splits)
qed

lemma SwapToNextDrawBuffer_surface:
  "m_size (m_surface (SwapToNextDrawBuffer r s)) =
     \<lparr>size_w = width (m_cfg s), size_h = height (m_cfg s)\<rparr>"
  "m_bits (m_surface (SwapToNextDrawBuffer r s)) = Some (unat (m_draw_buffer_index s XOR 1))"
  "dirty_in_bounds (m_surface (SwapToNextDrawBuffer r s))"
  by (simp_all add: SwapToNextDrawBuffer_def Let_def BindDrawSurface_def
      CopyRegionBetweenBuffers_fields Bind_fields ClearDirtyRect_fields
      ClearDirtyRect_in_bounds)

lemma SubmitFrame_inv:
  assumes "Present_inv s"
  shows "Present_inv (snd (SubmitFrame B region mode s))"
  using assms
  by (simp add: SubmitFrame_def Let_def Present_inv_def call_Present_simps
      SwapToNextDrawBuffer_fields SwapToNextDrawBuffer_surface ClearDirtyRect_fields
      ClearDirtyRect_in_bounds)

lemma submit_inv:
  assumes "Present_inv s"
  shows "Present_inv (snd (submit B q s))"
  using submit_cases [of B q s] assms SubmitFrame_inv [OF assms, of B] by auto

lemma setters_inv:
  assumes "Present_inv s"
  shows "Present_inv (snd (SetRotation rot s))" "Present_inv (snd (SetPowerSave B e s))"
    "Present_inv (snd (SetContrast B v s))" "Present_inv (snd (OnTransferDone s))"
    "Present_inv (snd (BeginFrame s))" "Present_inv (snd (EndFrame s))"
  using assms
  by (simp_all add: SetRotation_def SetPowerSave_def SetContrast_def OnTransferDone_def
      BeginFrame_def EndFrame_def Let_def Present_inv_def AddDirtyRect_def MarkDirty_in_bounds)

lemma run_op_frame:
  assumes "\<not> is_Bind a" and "run_op a c = Some c'"
  shows "m_size (fst c') = m_size (fst c) \<and> m_bits (fst c') = m_bits (fst c)"
proof (cases a)
  case (Op_DrawLine p0 p1 col rop)
  from DrawLine_returns [of p0 p1 col rop c] obtain d
    where "DrawLine p0 p1 col rop c = Some d" "marked (fst c) (fst d)" by blast
  with assms Op_DrawLine show ?thesis by (auto dest: marked_fields)
qed (use assms in \<open>auto simp add: SetClip_def ResetClip_def ClearDirtyRect_def AddDirtyRect_def
      DrawText_op_def DrawTextTopLeft_op_def
      marked_fields [OF Clear_marked] marked_fields [OF DrawPixel_marked]
      marked_fields [OF DrawHLine_marked] marked_fields [OF DrawVLine_marked]
      marked_fields [OF DrawRect_marked] marked_fields [OF FillRect_marked]
      marked_fields [OF DrawCircle_marked] marked_fields [OF DrawBitmap_marked]
      marked_fields [OF DrawText_marked] marked_fields [OF DrawTextTopLeft_marked]\<close>)

lemma run_ops_frame:
  assumes "\<forall>a \<in> set ops. \<not> is_Bind a" and "run_ops ops c = Some c'"
  shows "m_size (fst c') = m_size (fst c) \<and> m_bits (fst c') = m_bits (fst c)"
  using assms
proof (induction ops arbitrary: c)
  case Nil
  then show ?case by simp
next
  case (Cons a ops)
  from Cons.prems(2) obtain c1 where 1: "run_op a c = Some c1" and 2: "run_ops ops c1 = Some c'"
    by (auto split: option.splits)
  from run_op_frame [OF _ 1] Cons.prems(1) Cons.IH [OF _ 2] show ?case by simp
qed

text \<open>Drawing on the Surface of a Present, without binding it anew, keeps the invariant.\<close>

lemma draw_inv:
  assumes "Present_inv s" and "\<forall>a \<in> set ops. \<not> is_Bind a"
  shows "\<exists>t. draw ops s = Some t \<and> Present_inv t"
proof -
  have "dirty_in_bounds (fst (m_surface s, m_framebuffers s))"
    using assms(1) by (simp add: Present_inv_def)
  from run_ops_returns [OF this, of ops] obtain c'
    where r: "run_ops ops (m_surface s, m_framebuffers s) = Some c'"
      and d: "dirty_in_bounds (fst c')" by blast
  from run_ops_frame [OF assms(2) r] d assms(1) r show ?thesis
    by (simp add: draw_def Present_inv_def)
qed

section \<open>The asynchronous protocol\<close>

text \<open>
  C1, as amended. On a backend with \<open>async_present\<close>, start from an initialized Present
  with no transfer in flight and make a submission (by mode or by rect) whose call of the
  backend's \<open>Present\<close> returns \<open>OK\<close>. Then the submission returns \<open>OK\<close> and
  \<open>IsTransferInProgress\<close> is true. From there on, until the completion signal, and also
  after any drawing on the Surface, every further submission leaves the whole state,
  backend and record of calls included, as it is, so the backend is not called; it returns
  \<open>BUSY\<close>, unless the call has nothing to submit, in which case it returns what it returns
  without a transfer in flight (\<open>OK\<close> for a mode, \<open>ARG_ERR\<close> for a rect). \<open>OnTransferDone\<close>
  then returns \<open>OK\<close> and clears the flag, and after it every submission whose call of the
  backend's \<open>Present\<close> returns \<open>OK\<close> returns \<open>OK\<close> again (and sets the flag again).
\<close>

theorem async_submission_protocol:
  assumes "m_initialized s0" and "async_present (m_caps s0)" and "\<not> IsTransferInProgress s0"
    and "submit B q1 s0 = (st1, s1)"
    and "backend_log s1 = backend_log s0 @ [Call_Present f1 m1 OK]"
  shows "st1 = OK \<and> IsTransferInProgress s1 \<and>
         (\<forall>region mode. SubmitFrame B region mode s1 = (BUSY, s1)) \<and>
         (\<forall>q. submit B q s1 =
                (if nothing_to_submit s1 q then nothing_status q else BUSY, s1)) \<and>
         (\<forall>ops t q. draw ops s1 = Some t \<longrightarrow>
                submit B q t = (if nothing_to_submit t q then nothing_status q else BUSY, t)) \<and>
         fst (OnTransferDone s1) = OK \<and>
         \<not> IsTransferInProgress (snd (OnTransferDone s1)) \<and>
         (\<forall>q3 f3 m3.
            backend_log (snd (submit B q3 (snd (OnTransferDone s1)))) =
              backend_log (snd (OnTransferDone s1)) @ [Call_Present f3 m3 OK] \<longrightarrow>
            fst (submit B q3 (snd (OnTransferDone s1))) = OK \<and>
            IsTransferInProgress (snd (submit B q3 (snd (OnTransferDone s1)))))"
proof -
  have l1: "backend_log (snd (submit B q1 s0)) = backend_log s0 @ [Call_Present f1 m1 OK]"
    using assms(4,5) by simp
  from async_transitions [OF assms(1,2), of B q1 f1 m1] assms(3,4) l1
  have st1: "st1 = OK" and fl: "IsTransferInProgress s1"
    and i1: "m_initialized s1" and a1: "async_present (m_caps s1)"
    by simp_all
  note t1 = async_transitions [OF i1 a1]
  have busy: "SubmitFrame B region mode s1 = (BUSY, s1)" for region mode
    using t1 [of B undefined undefined undefined region mode] fl by blast
  have sub: "submit B q s1 = (if nothing_to_submit s1 q then nothing_status q else BUSY, s1)"
    for q
    using t1 [of B q] fl by blast
  have drawn: "submit B q t = (if nothing_to_submit t q then nothing_status q else BUSY, t)"
    if "draw ops s1 = Some t" for ops t q
  proof -
    from draw_fields [OF that] i1 a1 fl
    have "m_initialized t" "async_present (m_caps t)" "IsTransferInProgress t"
      by (simp_all add: IsTransferInProgress_def)
    from async_transitions [OF this(1,2), of B q] this(3) show ?thesis by blast
  qed
  have dn: "OnTransferDone s1 = (OK, s1\<lparr>m_transfer_in_progress := False\<rparr>)"
    and i2: "m_initialized (snd (OnTransferDone s1))"
    and a2: "async_present (m_caps (snd (OnTransferDone s1)))"
    and n2: "\<not> IsTransferInProgress (snd (OnTransferDone s1))"
    using t1 [of B] fl by blast+
  have again: "fst (submit B q3 (snd (OnTransferDone s1))) = OK \<and>
      IsTransferInProgress (snd (submit B q3 (snd (OnTransferDone s1))))"
    if "backend_log (snd (submit B q3 (snd (OnTransferDone s1)))) =
        backend_log (snd (OnTransferDone s1)) @ [Call_Present f3 m3 OK]" for q3 f3 m3
    using async_transitions [OF i2 a2, of B q3 f3 m3] n2 that by blast
  have d1: "fst (OnTransferDone s1) = OK" using dn by simp
  from st1 fl busy sub drawn d1 n2 again show ?thesis by blast
qed



text \<open>
  A backend with \<open>async_present\<close> and \<open>partial_update\<close> that always answers \<open>OK\<close>: submit
  in mode \<open>AUTO\<close>; then, before the completion signal, submit in mode \<open>FULL\<close>, with a
  rect, in mode \<open>AUTO\<close>, and in mode \<open>AUTO\<close> once more after drawing a pixel; then once
  after the completion signal.
\<close>

theorem async_submission_protocol_witness:
  "m_initialized (test_present async_partial_caps OK) \<and>
   async_present (m_caps (test_present async_partial_caps OK)) \<and>
   \<not> IsTransferInProgress (test_present async_partial_caps OK) \<and>
   backend_log (test_present_submitted async_partial_caps) =
     backend_log (test_present async_partial_caps OK) @
       [Call_Present (frame_view (test_present async_partial_caps OK) (mk_Rect 0 0 16 2))
          DIRTY OK] \<and>
   IsTransferInProgress (test_present_submitted async_partial_caps) \<and>
   submit (test_backend async_partial_caps OK) (By_mode FULL)
       (test_present_submitted async_partial_caps) =
     (BUSY, test_present_submitted async_partial_caps) \<and>
   submit (test_backend async_partial_caps OK) (By_rect (mk_Rect 0 0 4 1))
       (test_present_submitted async_partial_caps) =
     (BUSY, test_present_submitted async_partial_caps) \<and>
   submit (test_backend async_partial_caps OK) (By_mode AUTO)
       (test_present_submitted async_partial_caps) =
     (OK, test_present_submitted async_partial_caps) \<and>
   (\<exists>t. draw [Op_DrawPixel (mk_Point 3 1) WHITE COPY]
          (test_present_submitted async_partial_caps) = Some t \<and>
        submit (test_backend async_partial_caps OK) (By_mode AUTO) t = (BUSY, t)) \<and>
   fst (OnTransferDone (test_present_submitted async_partial_caps)) = OK \<and>
   \<not> IsTransferInProgress (snd (OnTransferDone (test_present_submitted async_partial_caps))) \<and>
   fst (submit (test_backend async_partial_caps OK) (By_mode FULL)
          (snd (OnTransferDone (test_present_submitted async_partial_caps)))) = OK"
proof -
  define B where "B = test_backend async_partial_caps OK"
  define s0 where "s0 = test_present async_partial_caps OK"
  define s1 where "s1 = test_present_submitted async_partial_caps"
  define s2 where "s2 = snd (OnTransferDone s1)"
  define t where "t = the (draw [Op_DrawPixel (mk_Point 3 1) WHITE COPY] s1)"
  have i: "m_initialized s0" and a: "async_present (m_caps s0)"
    and n: "\<not> IsTransferInProgress s0"
    unfolding s0_def by code_simp+
  have p: "submit B (By_mode AUTO) s0 = (fst (submit B (By_mode AUTO) s0), s1)"
    unfolding s1_def s0_def B_def test_present_submitted_def by simp
  have l: "backend_log s1 =
      backend_log s0 @ [Call_Present (frame_view s0 (mk_Rect 0 0 16 2)) DIRTY OK]"
    unfolding s1_def s0_def by code_simp
  have l3: "backend_log (snd (submit B (By_mode FULL) s2)) =
      backend_log s2 @ [Call_Present (frame_view s2 (mk_Rect 0 0 16 2)) FULL OK]"
    unfolding s2_def s1_def B_def by code_simp
  have d: "draw [Op_DrawPixel (mk_Point 3 1) WHITE COPY] s1 = Some t"
    unfolding t_def s1_def by code_simp
  have e: "\<not> nothing_to_submit s1 (By_mode FULL)"
    "\<not> nothing_to_submit s1 (By_rect (mk_Rect 0 0 4 1))"
    "nothing_to_submit s1 (By_mode AUTO)"
    "\<not> nothing_to_submit t (By_mode AUTO)"
    unfolding t_def s1_def by code_simp+
  note th = async_submission_protocol [OF i a n p l]
  from th have c1: "IsTransferInProgress s1" by blast
  from th e(1) have c2: "submit B (By_mode FULL) s1 = (BUSY, s1)" by metis
  from th e(2) have c3: "submit B (By_rect (mk_Rect 0 0 4 1)) s1 = (BUSY, s1)" by metis
  from th e(3) have c4: "submit B (By_mode AUTO) s1 = (OK, s1)"
    by (metis nothing_status.simps(2))
  from th d e(4) have c5: "submit B (By_mode AUTO) t = (BUSY, t)" by metis
  from th have c6: "fst (OnTransferDone s1) = OK" by blast
  from th have c7: "\<not> IsTransferInProgress s2" unfolding s2_def by blast
  from th l3 have c8: "fst (submit B (By_mode FULL) s2) = OK" unfolding s2_def by blast
  from i a n l c1 c2 c3 c4 d c5 c6 c7 c8 show ?thesis
    unfolding B_def [symmetric] s0_def [symmetric] s1_def [symmetric] s2_def [symmetric]
    by blast
qed

text \<open>
  C1 as stated fails. On this backend the first \<open>PresentFrame()\<close> succeeds and leaves a
  transfer in flight; the swap to the other buffer has cleared the dirty rect, so a second
  \<open>PresentFrame()\<close> before the completion signal has nothing to submit and returns \<open>OK\<close>,
  not \<open>BUSY\<close>.
\<close>

theorem second_submission_ok_counterexample:
  "m_initialized (test_present async_partial_caps OK) \<and>
   async_present (m_caps (test_present async_partial_caps OK)) \<and>
   \<not> IsTransferInProgress (test_present async_partial_caps OK) \<and>
   test_present_submitted async_partial_caps =
     snd (PresentFrame (test_backend async_partial_caps OK) AUTO
            (test_present async_partial_caps OK)) \<and>
   backend_log (test_present_submitted async_partial_caps) =
     backend_log (test_present async_partial_caps OK) @
       [Call_Present (frame_view (test_present async_partial_caps OK) (mk_Rect 0 0 16 2))
          DIRTY OK] \<and>
   IsTransferInProgress (test_present_submitted async_partial_caps) \<and>
   fst (PresentFrame (test_backend async_partial_caps OK) AUTO
          (test_present_submitted async_partial_caps)) = OK \<and>
   fst (PresentFrame (test_backend async_partial_caps OK) AUTO
          (test_present_submitted async_partial_caps)) \<noteq> BUSY"
  by code_simp

section \<open>Regions that clip to nothing\<close>

text \<open>
  C2, as amended. On an initialized Present, \<open>PresentFrame(Rect)\<close> with a rect that
  clips to nothing against the frame returns \<open>ARG_ERR\<close> and changes nothing, so nothing
  is submitted to the backend. On a backend with \<open>partial_update\<close>, \<open>PresentFrame(DIRTY)\<close>
  (and \<open>PresentFrame(AUTO)\<close> when dirty tracking is enabled) with an accumulated dirty rect
  that clips to nothing returns \<open>OK\<close> and changes nothing, so nothing is submitted to the
  backend either.
\<close>

theorem nothing_to_present:
  assumes "m_initialized s"
  shows "(rect_empty (ClipToFrame dirty_rect (m_cfg s)) \<longrightarrow>
            PresentFrame_rect B dirty_rect s = (ARG_ERR, s)) \<and>
         (partial_update (m_caps s) \<and>
          rect_empty (ClipToFrame (GetDirtyRect (m_surface s)) (m_cfg s)) \<longrightarrow>
            PresentFrame B DIRTY s = (OK, s) \<and>
            (enable_dirty_tracking (m_cfg s) \<longrightarrow> PresentFrame B AUTO s = (OK, s)))"
  using assms by (simp add: PresentFrame_def PresentFrame_rect_def Let_def)


theorem nothing_to_present_witness:
  "let B = test_backend (caps_of True False False True) OK;
       s = snd (PresentFrame B FULL (Present_ctor B 4 0 test_cfg))
   in m_initialized s \<and> partial_update (m_caps s) \<and> enable_dirty_tracking (m_cfg s) \<and>
      rect_empty (ClipToFrame (mk_Rect 40 0 3 3) (m_cfg s)) \<and>
      rect_empty (ClipToFrame (GetDirtyRect (m_surface s)) (m_cfg s)) \<and>
      PresentFrame_rect B (mk_Rect 40 0 3 3) s = (ARG_ERR, s) \<and>
      PresentFrame B DIRTY s = (OK, s) \<and> PresentFrame B AUTO s = (OK, s)"
proof -
  define B where "B = test_backend (caps_of True False False True) OK"
  define s where "s = snd (PresentFrame B FULL (Present_ctor B 4 0 test_cfg))"
  have i: "m_initialized s" and pu: "partial_update (m_caps s)"
    and t: "enable_dirty_tracking (m_cfg s)"
    and e1: "rect_empty (ClipToFrame (mk_Rect 40 0 3 3) (m_cfg s))"
    and e2: "rect_empty (ClipToFrame (GetDirtyRect (m_surface s)) (m_cfg s))"
    unfolding s_def B_def by code_simp+
  from nothing_to_present [OF i, of "mk_Rect 40 0 3 3" B] i pu t e1 e2 show ?thesis
    unfolding Let_def B_def [symmetric] s_def [symmetric] by simp
qed


text \<open>
  C2 as stated fails twice. An explicit rect outside the 16 by 2 frame clips to nothing,
  and \<open>PresentFrame(Rect)\<close> returns \<open>ARG_ERR\<close>, not \<open>OK\<close>. And on a backend without
  \<open>partial_update\<close>, \<open>PresentFrame(DIRTY)\<close> with an empty dirty rect (here right after a
  successful synchronous submission) hands the full frame to the backend.
\<close>

theorem empty_region_ok_counterexample:
  "m_initialized (test_present no_caps OK) \<and>
   rect_empty (ClipToFrame (mk_Rect 40 0 3 3) (m_cfg (test_present no_caps OK))) \<and>
   fst (PresentFrame_rect (test_backend no_caps OK) (mk_Rect 40 0 3 3)
          (test_present no_caps OK)) = ARG_ERR \<and>
   fst (PresentFrame_rect (test_backend no_caps OK) (mk_Rect 40 0 3 3)
          (test_present no_caps OK)) \<noteq> OK \<and>
   m_initialized (test_present_submitted no_caps) \<and>
   rect_empty (ClipToFrame (GetDirtyRect (m_surface (test_present_submitted no_caps)))
                 (m_cfg (test_present_submitted no_caps))) \<and>
   backend_log (snd (PresentFrame (test_backend no_caps OK) DIRTY
                       (test_present_submitted no_caps))) =
     backend_log (test_present_submitted no_caps) @
       [Call_Present
          (frame_view (test_present_submitted no_caps)
             (FullRect (m_cfg (test_present_submitted no_caps)))) FULL OK]"
  by code_simp

section \<open>Rotation, power save and contrast\<close>

lemma FullRect_bounds:
  "FullRect cfg = bounds_rect \<lparr>size_w = width cfg, size_h = height cfg\<rparr>"
  by (simp add: FullRect_def bounds_rect_def)

lemma SetRotation_marks_full_frame:
  assumes "Present_inv s"
  shows "GetDirtyRect (m_surface (snd (SetRotation rot s))) = FullRect (m_cfg s)"
  using assms MarkDirty_bounds [of "m_surface s"]
  by (simp add: Present_inv_def SetRotation_def Let_def AddDirtyRect_def GetDirtyRect_def
      FullRect_bounds)

text \<open>
  C3, as amended. On an initialized Present, \<open>SetPowerSave\<close> and \<open>SetContrast\<close> are gated
  by the cached capability flags \<open>power_save\<close> and \<open>contrast\<close>: without the capability
  they return \<open>NOT_SUPPORT\<close> and change nothing, so the backend is not called; with it they
  make exactly one call of the backend member with the argument given and return its
  status. \<open>SetRotation\<close> is not gated and is not passed to the backend: it always returns
  \<open>OK\<close>, stores the rotation in the configuration, and adds the full frame to the dirty rect
  of the Surface, which after the call is the full frame rect.
\<close>

theorem setters:
  assumes "m_initialized s"
  shows "(\<not> power_save (m_caps s) \<longrightarrow> SetPowerSave B enable s = (NOT_SUPPORT, s)) \<and>
         (power_save (m_caps s) \<longrightarrow>
            SetPowerSave B enable s =
              (fst (be_SetPowerSave B (m_backend s) enable),
               s\<lparr>m_backend := snd (be_SetPowerSave B (m_backend s) enable),
                 backend_log := backend_log s @
                   [Call_SetPowerSave enable (fst (be_SetPowerSave B (m_backend s) enable))]\<rparr>)) \<and>
         (\<not> contrast (m_caps s) \<longrightarrow> SetContrast B v s = (NOT_SUPPORT, s)) \<and>
         (contrast (m_caps s) \<longrightarrow>
            SetContrast B v s =
              (fst (be_SetContrast B (m_backend s) v),
               s\<lparr>m_backend := snd (be_SetContrast B (m_backend s) v),
                 backend_log := backend_log s @
                   [Call_SetContrast v (fst (be_SetContrast B (m_backend s) v))]\<rparr>)) \<and>
         SetRotation rot s =
           (OK, s\<lparr>m_cfg := (m_cfg s)\<lparr>rotation := rot\<rparr>,
                  m_surface := AddDirtyRect (FullRect (m_cfg s)) (m_surface s)\<rparr>) \<and>
         (Present_inv s \<longrightarrow>
            GetDirtyRect (m_surface (snd (SetRotation rot s))) = FullRect (m_cfg s))"
  using assms SetRotation_marks_full_frame [of s rot]
  by (simp add: SetPowerSave_def SetContrast_def Let_def)
    (simp add: SetRotation_def Let_def FullRect_def)



text \<open>
  A synchronous backend with \<open>power_save\<close> and without \<open>contrast\<close>, after one successful
  submission, so that the dirty rect is empty before \<open>SetRotation\<close>.
\<close>

theorem setters_witness:
  "let B = test_backend (caps_of True True False False) OK;
       s = snd (PresentFrame B FULL (Present_ctor B 4 0 test_cfg))
   in m_initialized s \<and> Present_inv s \<and> power_save (m_caps s) \<and> \<not> contrast (m_caps s) \<and>
      GetDirtyRect (m_surface s) = Rect_zero \<and>
      fst (SetPowerSave B True s) = OK \<and>
      backend_log (snd (SetPowerSave B True s)) = backend_log s @ [Call_SetPowerSave True OK] \<and>
      SetContrast B 7 s = (NOT_SUPPORT, s) \<and>
      fst (SetRotation R90 s) = OK \<and>
      GetDirtyRect (m_surface (snd (SetRotation R90 s))) = mk_Rect 0 0 16 2"
proof -
  define B where "B = test_backend (caps_of True True False False) OK"
  define s where "s = snd (PresentFrame B FULL (Present_ctor B 4 0 test_cfg))"
  have i: "m_initialized s" and inv: "Present_inv s" and p: "power_save (m_caps s)"
    and c: "\<not> contrast (m_caps s)" and d: "GetDirtyRect (m_surface s) = Rect_zero"
    and f: "FullRect (m_cfg s) = mk_Rect 0 0 16 2"
    and b: "fst (be_SetPowerSave B (m_backend s) True) = OK"
    unfolding s_def B_def by code_simp+
  note th = setters [OF i, of B True 7 R90]
  from th p b have c1: "fst (SetPowerSave B True s) = OK"
    and c2: "backend_log (snd (SetPowerSave B True s)) =
      backend_log s @ [Call_SetPowerSave True OK]"
    by simp_all
  from th c have c3: "SetContrast B 7 s = (NOT_SUPPORT, s)" by blast
  from th have c4: "fst (SetRotation R90 s) = OK" by simp
  from th inv f have c5: "GetDirtyRect (m_surface (snd (SetRotation R90 s))) = mk_Rect 0 0 16 2"
    by metis
  from i inv p c d c1 c2 c3 c4 c5 show ?thesis
    unfolding Let_def B_def [symmetric] s_def [symmetric] by blast
qed

text \<open>
  C3 as stated fails for \<open>SetRotation\<close>: on a backend with no capability at all it
  returns \<open>OK\<close>, not \<open>NOT_SUPPORT\<close>, and it does not reach the backend.
\<close>

theorem SetRotation_gate_counterexample:
  "m_initialized (test_present no_caps OK) \<and>
   fst (SetRotation R90 (test_present no_caps OK)) = OK \<and>
   fst (SetRotation R90 (test_present no_caps OK)) \<noteq> NOT_SUPPORT \<and>
   backend_log (snd (SetRotation R90 (test_present no_caps OK))) =
     backend_log (test_present no_caps OK) \<and>
   m_backend (snd (SetRotation R90 (test_present no_caps OK))) =
     m_backend (test_present no_caps OK)"
  by code_simp

section \<open>The dirty rect stays in the frame\<close>

text \<open>
  C4. The dirty rect of a freshly constructed Surface lies within its bounds. Whenever
  the dirty rect lies within the bounds, every public call of \<open>Surface\<close> returns and
  leaves it within the bounds of the size then bound, and so does every sequence of such
  calls: the region of the rect that \<open>GetDirtyRect\<close> returns is a subset of
  \<open>[0, w) \<times> [0, h)\<close> for the size \<open>(w, h)\<close> that \<open>GetSize\<close> returns.
\<close>

theorem dirty_rect_in_frame:
  "dirty_in_bounds Surface_default \<and>
   (dirty_in_bounds (fst c) \<longrightarrow>
      (\<exists>c'. run_op a c = Some c' \<and> dirty_in_bounds (fst c')) \<and>
      (\<exists>c'. run_ops ops c = Some c' \<and> dirty_in_bounds (fst c') \<and>
            rect_pixels (GetDirtyRect (fst c')) \<subseteq>
              {0 ..< uint (size_w (GetSize (fst c')))} \<times>
              {0 ..< uint (size_h (GetSize (fst c')))}))"
proof -
  have "rect_pixels (GetDirtyRect s) \<subseteq>
      {0 ..< uint (size_w (GetSize s))} \<times> {0 ..< uint (size_h (GetSize s))}"
    if "dirty_in_bounds s" for s
    using rect_within_pixels [OF that [unfolded dirty_in_bounds_def] ]
    by (simp add: rect_pixels_def Bounds_def GetSize_def)
  with run_ops_returns [of c ops] run_op_returns [of c a] Surface_default_in_bounds
  show ?thesis by blast
qed


theorem dirty_rect_in_frame_witness:
  "let c = (Surface_default, [replicate 8 0])
   in dirty_in_bounds (fst c) \<and>
      (\<exists>c'. run_ops test_ops c = Some c' \<and>
            GetDirtyRect (fst c') = mk_Rect 2 0 6 8 \<and>
            GetSize (fst c') = \<lparr>size_w = 8, size_h = 8\<rparr> \<and>
            rect_pixels (GetDirtyRect (fst c')) \<subseteq> {0 ..< 8} \<times> {0 ..< 8})"
proof -
  define c :: canvas where "c = (Surface_default, [replicate 8 0])"
  have h: "dirty_in_bounds (fst c)"
    unfolding c_def by (simp add: Surface_default_in_bounds)
  from dirty_rect_in_frame [of c "Op_ClearDirtyRect" test_ops] h
  obtain c' where r: "run_ops test_ops c = Some c'"
    and p: "rect_pixels (GetDirtyRect (fst c')) \<subseteq>
              {0 ..< uint (size_w (GetSize (fst c')))} \<times>
              {0 ..< uint (size_h (GetSize (fst c')))}"
    by blast
  have "GetDirtyRect (fst (the (run_ops test_ops c))) = mk_Rect 2 0 6 8"
    and "GetSize (fst (the (run_ops test_ops c))) = \<lparr>size_w = 8, size_h = 8\<rparr>"
    unfolding c_def by code_simp+
  then have d: "GetDirtyRect (fst c') = mk_Rect 2 0 6 8"
    and z: "GetSize (fst c') = \<lparr>size_w = 8, size_h = 8\<rparr>"
    using r by simp_all
  from p have "rect_pixels (GetDirtyRect (fst c')) \<subseteq> {0 ..< 8} \<times> {0 ..< 8}"
    unfolding z by simp
  with h r d z show ?thesis
    unfolding Let_def c_def [symmetric] by blast
qed

section \<open>Backends without partial update\<close>

text \<open>
  C5, as amended. On an initialized Present whose backend has no \<open>partial_update\<close>, take
  a submission in mode \<open>AUTO\<close> or \<open>DIRTY\<close> or with an explicit rect. If it is a rect that
  clips to nothing against the frame, the call returns \<open>ARG_ERR\<close> and nothing is handed to
  the backend. Otherwise it is the submission of the full frame rect in mode \<open>FULL\<close>:
  unless an asynchronous transfer is in flight (then it returns \<open>BUSY\<close> and nothing is
  handed over), the backend receives exactly one \<open>Present\<close> call, with mode \<open>FULL\<close> and a
  \<open>FrameView\<close> whose region is \<open>{0, 0, width, height}\<close>.
\<close>

theorem no_partial_update_full_frame:
  assumes "m_initialized s" and "\<not> partial_update (m_caps s)" and "q \<noteq> By_mode FULL"
  shows "(nothing_to_submit s q \<longrightarrow> submit B q s = (ARG_ERR, s)) \<and>
         (\<not> nothing_to_submit s q \<longrightarrow>
            submit B q s = SubmitFrame B (FullRect (m_cfg s)) FULL s \<and>
            fv_dirty (frame_view s (FullRect (m_cfg s))) =
              mk_Rect 0 0 (width (m_cfg s)) (height (m_cfg s)) \<and>
            (if async_present (m_caps s) \<and> IsTransferInProgress s
             then submit B q s = (BUSY, s)
             else backend_log (snd (submit B q s)) =
                    backend_log s @
                      [Call_Present (frame_view s (FullRect (m_cfg s))) FULL
                         (fst (submit B q s))]))"
proof (cases "nothing_to_submit s q")
  case True
  then obtain r where "q = By_rect r" using assms(2) by (cases q) auto
  with submit_nothing [OF assms(1) True, of B] True show ?thesis by simp
next
  case False
  have eq: "submit B q s = SubmitFrame B (FullRect (m_cfg s)) FULL s"
  proof (cases q)
    case (By_mode mode)
    with assms show ?thesis by (cases mode) (simp_all add: PresentFrame_def Let_def)
  next
    case (By_rect r)
    with assms False show ?thesis by (simp add: PresentFrame_rect_def Let_def)
  qed
  show ?thesis
    using False unfolding eq
    using SubmitFrame_log [of s B "FullRect (m_cfg s)" FULL]
      SubmitFrame_busy [of s B "FullRect (m_cfg s)" FULL]
    by (auto simp add: frame_view_def FullRect_def IsTransferInProgress_def)
qed


text \<open>
  A synchronous backend without any capability: a rect inside the frame, the mode
  \<open>DIRTY\<close> and the mode \<open>AUTO\<close> all hand the full frame of 16 by 2 pixels to the backend
  in mode \<open>FULL\<close>.
\<close>

theorem no_partial_update_full_frame_witness:
  "m_initialized (test_present no_caps OK) \<and>
   \<not> partial_update (m_caps (test_present no_caps OK)) \<and>
   By_rect (mk_Rect 3 1 2 1) \<noteq> By_mode FULL \<and>
   \<not> nothing_to_submit (test_present no_caps OK) (By_rect (mk_Rect 3 1 2 1)) \<and>
   backend_log (snd (submit (test_backend no_caps OK) (By_rect (mk_Rect 3 1 2 1))
                       (test_present no_caps OK))) =
     backend_log (test_present no_caps OK) @
       [Call_Present
          \<lparr>fv_bits = 0, fv_width = 16, fv_height = 2, fv_stride_bytes = 2,
           fv_dirty = mk_Rect 0 0 16 2\<rparr> FULL OK] \<and>
   backend_log (snd (submit (test_backend no_caps OK) (By_mode DIRTY)
                       (test_present no_caps OK))) =
     backend_log (test_present no_caps OK) @
       [Call_Present
          \<lparr>fv_bits = 0, fv_width = 16, fv_height = 2, fv_stride_bytes = 2,
           fv_dirty = mk_Rect 0 0 16 2\<rparr> FULL OK] \<and>
   backend_log (snd (submit (test_backend no_caps OK) (By_mode AUTO)
                       (test_present no_caps OK))) =
     backend_log (test_present no_caps OK) @
       [Call_Present
          \<lparr>fv_bits = 0, fv_width = 16, fv_height = 2, fv_stride_bytes = 2,
           fv_dirty = mk_Rect 0 0 16 2\<rparr> FULL OK]"
proof -
  define B where "B = test_backend no_caps OK"
  define s where "s = test_present no_caps OK"
  define f where "f = \<lparr>fv_bits = 0, fv_width = 16, fv_height = 2, fv_stride_bytes = 2,
            fv_dirty = mk_Rect 0 0 16 2\<rparr>"
  have i: "m_initialized s" and p: "\<not> partial_update (m_caps s)"
    and a: "\<not> (async_present (m_caps s) \<and> IsTransferInProgress s)"
    and e: "\<not> nothing_to_submit s (By_rect (mk_Rect 3 1 2 1))"
    and f: "frame_view s (FullRect (m_cfg s)) = f"
    and o: "fst (SubmitFrame B (FullRect (m_cfg s)) FULL s) = OK"
    unfolding s_def B_def f_def by code_simp+
  have l: "backend_log (snd (submit B q s)) = backend_log s @ [Call_Present f FULL OK]"
    if "q \<noteq> By_mode FULL" "\<not> nothing_to_submit s q" for q
  proof -
    note th = no_partial_update_full_frame [OF i p that(1), of B]
    from th that(2) o have "fst (submit B q s) = OK" by metis
    with th that(2) a f show ?thesis by metis
  qed
  have n: "\<not> nothing_to_submit s (By_mode m)" for m
    using p by simp
  have "backend_log (snd (submit B (By_rect (mk_Rect 3 1 2 1)) s)) =
        backend_log s @ [Call_Present f FULL OK]"
    by (rule l) (simp, rule e)
  moreover have "backend_log (snd (submit B (By_mode DIRTY) s)) =
      backend_log s @ [Call_Present f FULL OK]"
    by (rule l) (simp, rule n)
  moreover have "backend_log (snd (submit B (By_mode AUTO) s)) =
      backend_log s @ [Call_Present f FULL OK]"
    by (rule l) (simp, rule n)
  moreover have "By_rect (mk_Rect 3 1 2 1) \<noteq> By_mode FULL" by simp
  ultimately show ?thesis
    using i p e
    unfolding B_def [symmetric] s_def [symmetric] f_def [symmetric] by blast
qed

text \<open>
  C5 as stated fails twice. The rect at \<open>(40, 0)\<close> of 3 by 3 pixels is not empty, but it
  lies outside the frame of 16 by 2: \<open>PresentFrame(Rect)\<close> returns \<open>ARG_ERR\<close> and leaves
  the state, and with it the record of backend calls, as it is. And on an asynchronous
  backend with a transfer in flight, \<open>PresentFrame(DIRTY)\<close> returns \<open>BUSY\<close> and hands
  nothing to the backend.
\<close>

theorem full_frame_not_handed_counterexample:
  "m_initialized (test_present no_caps OK) \<and>
   \<not> partial_update (m_caps (test_present no_caps OK)) \<and>
   \<not> rect_empty (mk_Rect 40 0 3 3) \<and>
   PresentFrame_rect (test_backend no_caps OK) (mk_Rect 40 0 3 3) (test_present no_caps OK) =
     (ARG_ERR, test_present no_caps OK) \<and>
   m_initialized (test_present_submitted async_caps) \<and>
   \<not> partial_update (m_caps (test_present_submitted async_caps)) \<and>
   PresentFrame (test_backend async_caps OK) DIRTY (test_present_submitted async_caps) =
     (BUSY, test_present_submitted async_caps)"
  by code_simp

section \<open>Emptiness of a rect\<close>

text \<open>
  C6, as amended. A rect is empty as soon as one of its two extents is zero: \<open>rect_empty\<close>
  holds exactly when \<open>w = 0\<close> or \<open>h = 0\<close>, which is exactly when the half-open region
  \<open>[x, x + w) \<times> [y, y + h)\<close> contains no pixel. It does not take both extents to be zero.
\<close>

theorem rect_empty_one_zero_extent:
  "(rect_empty r \<longleftrightarrow> rect_w r = 0 \<or> rect_h r = 0) \<and> (rect_empty r \<longleftrightarrow> rect_pixels r = {})"
  using rect_empty_iff_pixels [of r] by (simp add: rect_empty_def)

text \<open>
  C6 as stated fails: the rect at the origin of width 0 and height 5 has exactly one zero
  extent, and \<open>rect_empty\<close> holds of it.
\<close>

theorem rect_empty_both_zero_counterexample:
  "rect_empty (mk_Rect 0 0 0 5) \<and>
   \<not> (rect_w (mk_Rect 0 0 0 5) = 0 \<and> rect_h (mk_Rect 0 0 0 5) = 0)"
  by (simp add: rect_empty_def)

section \<open>Newlines and characters without a glyph\<close>

text \<open>
  The fallback of \<open>font_line_height\<close> to the glyph height never changes its value: the
  line height is always the ascent in use plus the descent.
\<close>

lemma font_line_height_eq:
  "font_line_height f =
     (if ascent f = 0 then uint (glyph_height f) else uint (ascent f)) + uint (descent f)"
proof (cases "ascent f = 0")
  case True
  have "0 \<le> uint (glyph_height f)" "0 \<le> uint (descent f)" by simp_all
  then have "uint (glyph_height f) + uint (descent f) \<le> 0 \<Longrightarrow>
      uint (glyph_height f) = uint (glyph_height f) + uint (descent f)"
    by linarith
  then show ?thesis
    using True by (simp add: font_line_height_def font_ascent_def font_descent_def Let_def)
next
  case False
  then have "uint (ascent f) \<noteq> 0" by (simp add: uint_0_iff)
  moreover have "0 \<le> uint (ascent f)" "0 \<le> uint (descent f)" by simp_all
  ultimately have "\<not> uint (ascent f) + uint (descent f) \<le> 0" by linarith
  then show ?thesis
    using False by (simp add: font_line_height_def font_ascent_def font_descent_def Let_def)
qed

lemma DrawText_loop_baseline_x:
  "point_x b = point_x b' \<Longrightarrow>
   DrawText_loop f style tbl b p cursor_x baseline_y c =
   DrawText_loop f style tbl b' p cursor_x baseline_y c"
  by (induction p arbitrary: cursor_x baseline_y c) (simp_all add: Let_def)

text \<open>
  C7, as amended. Write \<open>line\<close> for the ascent in use (the ascent of the font, or its
  glyph height when the ascent is zero) plus the descent, and \<open>sx\<close>, \<open>sy\<close> for the scales
  in use (a scale of 0 counts as 1). When the loop of \<open>DrawText\<close> meets a newline, it goes
  on with the cursor x at \<open>baseline_left.x\<close> and the baseline y advanced by exactly
  \<open>line \<cdot> sy + 1\<close>, and draws nothing. When it meets a character other than NUL and
  newline that lies outside \<open>[first_char, last_char]\<close>, it draws nothing and goes on with
  the cursor x advanced by \<open>glyph_width \<cdot> sx + letter_spacing\<close>. For the whole call:
  a text that starts with a newline is drawn as the rest of the text one line lower, as
  long as the new baseline is a valid coordinate.
\<close>

theorem DrawText_newline_and_skipped:
  fixes f :: Font and style :: TextStyle
  defines "line \<equiv> (if ascent f = 0 then uint (glyph_height f) else uint (ascent f)) +
                   uint (descent f)"
    and "sx \<equiv> (if scale_x style = 0 then 1 else uint (scale_x style))"
    and "sy \<equiv> (if scale_y style = 0 then 1 else uint (scale_y style))"
  shows "DrawText_loop f style tbl baseline_left (CHR 0x0A # p) cursor_x baseline_y c =
           DrawText_loop f style tbl baseline_left p
             (sint (point_x baseline_left)) (baseline_y + (line * sy + 1)) c \<and>
         (ch \<noteq> CHR 0x00 \<and> ch \<noteq> CHR 0x0A \<and>
          \<not> (first_char f \<le> of_char ch \<and> of_char ch \<le> last_char f) \<longrightarrow>
          DrawText_loop f style tbl baseline_left (ch # p) cursor_x baseline_y c =
            DrawText_loop f style tbl baseline_left p
              (cursor_x + (uint (glyph_width f) * sx + sint (letter_spacing style)))
              baseline_y c) \<and>
         (font style = Some f \<and> sint (point_y baseline_left) + (line * sy + 1) < 32768 \<longrightarrow>
          DrawText baseline_left (Some (CHR 0x0A # p)) style c =
            DrawText
              (mk_Point (point_x baseline_left)
                 (word_of_int (sint (point_y baseline_left) + (line * sy + 1))))
              (Some p) style c)"
proof -
  have nl: "DrawText_loop f style tbl b (CHR 0x0A # p) cx by' c =
           DrawText_loop f style tbl b p (sint (point_x b)) (by' + (line * sy + 1)) c"
    for tbl b cx by'
    unfolding line_def sy_def by (simp add: font_line_height_eq text_SCALE_Y_def)
  have skip: "DrawText_loop f style tbl baseline_left (ch # p) cursor_x baseline_y c =
            DrawText_loop f style tbl baseline_left p
              (cursor_x + (uint (glyph_width f) * sx + sint (letter_spacing style)))
              baseline_y c"
    if "ch \<noteq> CHR 0x00" "ch \<noteq> CHR 0x0A"
      "\<not> (first_char f \<le> of_char ch \<and> of_char ch \<le> last_char f)"
    using that unfolding sx_def by (auto simp add: text_SCALE_X_def text_ADVANCE_def Let_def)
  have api: "DrawText baseline_left (Some (CHR 0x0A # p)) style c =
            DrawText
              (mk_Point (point_x baseline_left)
                 (word_of_int (sint (point_y baseline_left) + (line * sy + 1))))
              (Some p) style c"
    if f: "font style = Some f" and r: "sint (point_y baseline_left) + (line * sy + 1) < 32768"
  proof -
    have "0 \<le> line" "0 \<le> sy" unfolding line_def sy_def by simp_all
    then have "0 \<le> line * sy" by simp
    then have "- 32768 \<le> sint (point_y baseline_left) + (line * sy + 1)"
      using sint16_range [of "point_y baseline_left"] by linarith
    from sint16_word_of_int [OF this r]
    have y: "sint (point_y (mk_Point (point_x baseline_left)
        (word_of_int (sint (point_y baseline_left) + (line * sy + 1))))) =
        sint (point_y baseline_left) + (line * sy + 1)"
      by (simp add: mk_Point_def)
    have x: "point_x (mk_Point (point_x baseline_left)
        (word_of_int (sint (point_y baseline_left) + (line * sy + 1)))) = point_x baseline_left"
      by (simp add: mk_Point_def)
    show ?thesis
      unfolding DrawText_def
      by (simp only: f option.case nl y x
          DrawText_loop_baseline_x [OF x [symmetric], of f style _ p] split: option.split)
  qed
  from nl skip api show ?thesis by blast
qed



text \<open>
  The font has the one glyph \<open>A\<close>; \<open>B\<close> has no glyph. After a newline the glyph lands
  four rows lower, after a \<open>B\<close> one column to the right.
\<close>

theorem DrawText_newline_and_skipped_witness:
  "let c = (test_surface, [replicate 8 0]);
       bl = mk_Point 0 1
   in CHR ''B'' \<noteq> CHR 0x00 \<and> CHR ''B'' \<noteq> CHR 0x0A \<and>
      \<not> (first_char test_font \<le> of_char (CHR ''B'') \<and>
         of_char (CHR ''B'') \<le> last_char test_font) \<and>
      font (test_style 1) = Some test_font \<and>
      DrawText_loop test_font (test_style 1) [0x80] bl [CHR 0x0A, CHR ''A''] 0 1 c =
        DrawText_loop test_font (test_style 1) [0x80] bl [CHR ''A''] 0 5 c \<and>
      DrawText_loop test_font (test_style 1) [0x80] bl [CHR ''B'', CHR ''A''] 0 1 c =
        DrawText_loop test_font (test_style 1) [0x80] bl [CHR ''A''] 1 1 c \<and>
      DrawText bl (Some [CHR 0x0A, CHR ''A'']) (test_style 1) c =
        DrawText (mk_Point 0 5) (Some [CHR ''A'']) (test_style 1) c \<and>
      snd (DrawText bl (Some [CHR 0x0A, CHR ''A'']) (test_style 1) c) =
        [ [0, 0, 0, 0, 0x80, 0, 0, 0] ]"
proof -
  define c :: canvas where "c = (test_surface, [replicate 8 0])"
  define bl where "bl = mk_Point 0 1"
  have h: "CHR ''B'' \<noteq> CHR 0x00 \<and> CHR ''B'' \<noteq> CHR 0x0A \<and>
      \<not> (first_char test_font \<le> of_char (CHR ''B'') \<and>
         of_char (CHR ''B'') \<le> last_char test_font)"
    by code_simp
  have f: "font (test_style 1) = Some test_font" by (simp add: test_style_def)
  have r: "sint (point_y bl) +
      (((if ascent test_font = 0 then uint (glyph_height test_font)
         else uint (ascent test_font)) + uint (descent test_font)) *
       (if scale_y (test_style 1) = 0 then 1 else uint (scale_y (test_style 1))) + 1) < 32768"
    unfolding bl_def by code_simp
  have v: "sint (point_x bl) = 0"
    "1 + (((if ascent test_font = 0 then uint (glyph_height test_font)
         else uint (ascent test_font)) + uint (descent test_font)) *
       (if scale_y (test_style 1) = 0 then 1 else uint (scale_y (test_style 1))) + 1) = 5"
    "0 + (uint (glyph_width test_font) *
       (if scale_x (test_style 1) = 0 then 1 else uint (scale_x (test_style 1))) +
       sint (letter_spacing (test_style 1))) = 1"
    "mk_Point (point_x bl) (word_of_int (sint (point_y bl) +
      (((if ascent test_font = 0 then uint (glyph_height test_font)
         else uint (ascent test_font)) + uint (descent test_font)) *
       (if scale_y (test_style 1) = 0 then 1 else uint (scale_y (test_style 1))) + 1))) =
     mk_Point 0 5"
    unfolding bl_def by code_simp+
  note th = DrawText_newline_and_skipped
    [of test_font "test_style 1" "[0x80]" bl "[CHR ''A'']" 0 1 c "CHR ''B''"]
  from th have a: "DrawText_loop test_font (test_style 1) [0x80] bl [CHR 0x0A, CHR ''A''] 0 1 c =
        DrawText_loop test_font (test_style 1) [0x80] bl [CHR ''A''] 0 5 c"
    unfolding v by blast
  from th h have b: "DrawText_loop test_font (test_style 1) [0x80] bl [CHR ''B'', CHR ''A''] 0 1 c =
        DrawText_loop test_font (test_style 1) [0x80] bl [CHR ''A''] 1 1 c"
    unfolding v by blast
  from th f r have d: "DrawText bl (Some [CHR 0x0A, CHR ''A'']) (test_style 1) c =
        DrawText (mk_Point 0 5) (Some [CHR ''A'']) (test_style 1) c"
    unfolding v by blast
  have e: "snd (DrawText (mk_Point 0 5) (Some [CHR ''A'']) (test_style 1) c) =
        [ [0, 0, 0, 0, 0x80, 0, 0, 0] ]"
    unfolding c_def by code_simp
  from h f a b d e show ?thesis
    unfolding Let_def c_def [symmetric] bl_def [symmetric] by simp
qed

text \<open>
  C7 as stated fails. The font has ascent 0, descent 2 and glyph height 1, so ascent and
  descent are not both zero, and by the claim a newline at scale 1 advances the baseline
  by \<open>(0 + 2) \<cdot> 1 + 1 = 3\<close>: the glyph after it would land where a text drawn from
  baseline \<open>1 + 3\<close> puts it, on row 3. The code advances by \<open>(1 + 2) \<cdot> 1 + 1 = 4\<close> and the
  glyph lands on row 4. At scale 0 the code does the same as at scale 1.
\<close>

theorem DrawText_line_height_counterexample:
  "ascent test_font = 0 \<and> descent test_font = 2 \<and> glyph_height test_font = 1 \<and>
   snd (DrawText (mk_Point 0 1) (Some [CHR 0x0A, CHR ''A'']) (test_style 1)
          (test_surface, [replicate 8 0])) = [ [0, 0, 0, 0, 0x80, 0, 0, 0] ] \<and>
   snd (DrawText (mk_Point 0 (1 + ((0 + 2) * 1 + 1))) (Some [CHR ''A'']) (test_style 1)
          (test_surface, [replicate 8 0])) = [ [0, 0, 0, 0x80, 0, 0, 0, 0] ] \<and>
   snd (DrawText (mk_Point 0 1) (Some [CHR 0x0A, CHR ''A'']) (test_style 0)
          (test_surface, [replicate 8 0])) = [ [0, 0, 0, 0, 0x80, 0, 0, 0] ]"
  by code_simp

section \<open>Drawing outside the clip\<close>

lemma InClip_iff_pixels:
  "InClip s point \<longleftrightarrow> (sint (point_x point), sint (point_y point)) \<in> rect_pixels (m_clip s)"
  by (auto simp add: InClip_def rect_pixels_def)

text \<open>
  C8. For a point that does not lie in the region of the active clip rect, \<open>DrawPixel\<close>
  with any color and any raster op returns the store as it was, byte for byte, and the
  Surface as it was, so \<open>GetDirtyRect\<close> gives the same rect as before.
\<close>

theorem DrawPixel_outside_clip:
  assumes "(sint (point_x point), sint (point_y point)) \<notin> rect_pixels (GetClip s)"
  shows "snd (DrawPixel point col rop (s, st)) = st \<and>
         fst (DrawPixel point col rop (s, st)) = s \<and>
         GetDirtyRect (fst (DrawPixel point col rop (s, st))) = GetDirtyRect s"
  using assms by (simp add: DrawPixel_def Let_def InClip_iff_pixels GetClip_def)

theorem DrawPixel_outside_clip_witness:
  "(sint (point_x (mk_Point 9 2)), sint (point_y (mk_Point 9 2)))
     \<notin> rect_pixels (GetClip (Bind (Some 0) \<lparr>size_w = 8, size_h = 8\<rparr> 0 Surface_default)) \<and>
   snd (DrawPixel (mk_Point 9 2) WHITE XOR_op
          (Bind (Some 0) \<lparr>size_w = 8, size_h = 8\<rparr> 0 Surface_default, [replicate 8 0xFF]))
     = [replicate 8 0xFF] \<and>
   GetDirtyRect (fst (DrawPixel (mk_Point 9 2) WHITE XOR_op
          (Bind (Some 0) \<lparr>size_w = 8, size_h = 8\<rparr> 0 Surface_default, [replicate 8 0xFF])))
     = Rect_zero"
proof -
  have h: "(sint (point_x (mk_Point 9 2)), sint (point_y (mk_Point 9 2)))
     \<notin> rect_pixels (GetClip (Bind (Some 0) \<lparr>size_w = 8, size_h = 8\<rparr> 0 Surface_default))"
    by (simp add: rect_pixels_def GetClip_def Bind_def ClearDirtyRect_def ResetClip_def
        Bounds_def bounds_rect_def mk_Point_def)
  have d: "GetDirtyRect (Bind (Some 0) \<lparr>size_w = 8, size_h = 8\<rparr> 0 Surface_default) = Rect_zero"
    by (simp add: GetDirtyRect_def Bind_def ClearDirtyRect_def)
  show ?thesis
    using h DrawPixel_outside_clip [OF h, of WHITE XOR_op "[replicate 8 0xFF]"] d by simp
qed

section \<open>Outlines of very tall rects\<close>

text \<open>
  For the heights 1 and 2 \<open>DrawRect\<close> is one call of \<open>DrawHLine\<close>, or two, and makes no
  call of \<open>DrawVLine\<close>.
\<close>

lemma DrawRect_height_1:
  assumes "rect_h r = 1" and "rect_w r \<noteq> 0"
  shows "DrawRect r col rop c =
           DrawHLine (mk_Point (rect_x r) (rect_y r)) (rect_w r) col rop c"
  using assms by (simp add: DrawRect_def rect_empty_def Let_def)

lemma DrawRect_height_2:
  assumes "rect_h r = 2" and "rect_w r \<noteq> 0"
  shows "DrawRect r col rop c =
           DrawHLine (mk_Point (rect_x r) (rect_y r + 1)) (rect_w r) col rop
             (DrawHLine (mk_Point (rect_x r) (rect_y r)) (rect_w r) col rop c)"
  using assms by (simp add: DrawRect_def rect_empty_def Let_def add.commute)

text \<open>
  C9. \<open>DrawRect\<close> passes the extents of the rect, which are unsigned 16-bit values, to
  \<open>DrawHLine\<close> and \<open>DrawVLine\<close> as signed 16-bit lengths. For a rect at \<open>(0, 3)\<close> of
  width 2 and height 65535 on the 8 by 8 test surface, the length \<open>h - 2 = 65533\<close> of the
  vertical lines becomes \<open>-3\<close> and the row \<open>y + h - 1\<close> of the bottom line becomes 1: the
  vertical lines run upwards from row 4 and the code sets pixels on rows 1 and 2, above the
  top row 3 of the rect, and none on its interior rows 4 to 7. A rect of height 5 at the
  same place gets its top row and its two vertical lines on the interior rows.
\<close>

theorem DrawRect_tall_rect_evaluated:
  "\<not> rect_empty (mk_Rect 0 3 2 65535) \<and>
   snd (DrawRect (mk_Rect 0 3 2 65535) WHITE COPY (test_surface, [replicate 8 0])) =
     [ [0, 0xC0, 0xC0, 0xC0, 0, 0, 0, 0] ] \<and>
   snd (DrawRect (mk_Rect 0 3 2 5) WHITE COPY (test_surface, [replicate 8 0])) =
     [ [0, 0, 0, 0xC0, 0xC0, 0xC0, 0xC0, 0xC0] ]"
  by code_simp

section \<open>A submission the backend rejects\<close>

text \<open>
  C10. Take any submission, by mode or by explicit rect, on any Present, and suppose that
  it called the backend's \<open>Present\<close> and that this call returned a status \<open>r\<close> other than
  \<open>OK\<close>. Then the submission returns \<open>r\<close>, and the state after it is the state before it
  except for what the backend did to itself and for the record of the call: the dirty rect
  of the Surface is not cleared, the draw buffer index is not flipped, the Surface is the
  same and so bound to the same buffer, both framebuffers have the same contents, and the
  in-flight flag is as before, which is false (on an asynchronous backend because the
  backend would not have been called otherwise, and on a synchronous one because the flag
  is never set there).
\<close>

theorem failed_submission:
  assumes "submit B q s = (st, s')"
    and "backend_log s' = backend_log s @ [Call_Present f m r]"
    and "r \<noteq> OK"
  shows "st = r \<and>
         s' = s\<lparr>m_backend := m_backend s', backend_log := backend_log s'\<rparr> \<and>
         GetDirtyRect (m_surface s') = GetDirtyRect (m_surface s) \<and>
         m_draw_buffer_index s' = m_draw_buffer_index s \<and>
         m_surface s' = m_surface s \<and>
         m_framebuffers s' = m_framebuffers s \<and>
         \<not> (async_present (m_caps s) \<and> m_transfer_in_progress s) \<and>
         m_transfer_in_progress s' = m_transfer_in_progress s \<and>
         (Present_inv s \<longrightarrow> \<not> IsTransferInProgress s')"
proof -
  have l: "backend_log (snd (submit B q s)) = backend_log s @ [Call_Present f m r]"
    using assms by simp
  from submit_called [OF l] obtain region where st: "st = r"
    and nb: "\<not> (async_present (m_caps s) \<and> m_transfer_in_progress s)"
    and eq: "submit B q s = SubmitFrame B region m s"
    using assms(1) by auto
  have r: "SubmitFrame B region m s = (r, s')"
    using eq assms(1) st by simp
  then have "fst (SubmitFrame B region m s) \<noteq> OK"
    using assms(3) by simp
  from SubmitFrame_failed [OF nb this]
  have s': "s' = s\<lparr>m_backend := m_backend s', backend_log := backend_log s'\<rparr>"
    unfolding r by simp
  have a: "m_surface s' = m_surface s" "m_draw_buffer_index s' = m_draw_buffer_index s"
    "m_framebuffers s' = m_framebuffers s" "m_transfer_in_progress s' = m_transfer_in_progress s"
    by (subst s', simp)+
  have "Present_inv s \<longrightarrow> \<not> IsTransferInProgress s'"
    using nb a by (auto simp add: Present_inv_def IsTransferInProgress_def)
  with st s' a nb show ?thesis by simp
qed

text \<open>
  An asynchronous backend that answers \<open>SIZE_ERR\<close>, on a freshly constructed Present,
  submitted to in mode \<open>FULL\<close>.
\<close>

theorem failed_submission_witness:
  "let B = test_backend (caps_of True False False True) SIZE_ERR;
       s = Present_ctor B 4 0 test_cfg;
       r = submit B (By_mode FULL) s
   in Present_inv s \<and>
      backend_log (snd r) =
        backend_log s @ [Call_Present (frame_view s (FullRect test_cfg)) FULL SIZE_ERR] \<and>
      fst r = SIZE_ERR \<and>
      m_surface (snd r) = m_surface s \<and>
      m_draw_buffer_index (snd r) = m_draw_buffer_index s \<and>
      m_framebuffers (snd r) = m_framebuffers s \<and>
      \<not> IsTransferInProgress (snd r)"
proof -
  define B where "B = test_backend (caps_of True False False True) SIZE_ERR"
  define s where "s = Present_ctor B 4 0 test_cfg"
  have p: "submit B (By_mode FULL) s =
      (fst (submit B (By_mode FULL) s), snd (submit B (By_mode FULL) s))"
    by simp
  have l: "backend_log (snd (submit B (By_mode FULL) s)) =
      backend_log s @ [Call_Present (frame_view s (FullRect test_cfg)) FULL SIZE_ERR]"
    unfolding s_def B_def by code_simp
  have n: "SIZE_ERR \<noteq> OK" by simp
  have inv: "Present_inv s" unfolding s_def B_def by code_simp
  from failed_submission [OF p l n] inv l show ?thesis
    unfolding s_def B_def Let_def by simp
qed

end
